theory Spec2Isabelle
  imports Main "HOL-Library.Word"
begin

section \<open>Exception-based communication: the data of \<open>main.cpp\<close>\<close>

text \<open>
  The program talks to the operating system only: every effect is a call of the Win32
  or C++ runtime interface, or an access to the shared mapping. The embedding makes each
  such call an entry of a list of calls, in program order, and takes what the system
  answers (return values, error codes, debug events, the content of shared memory when
  it is read) from an environment. \<open>DWORD\<close> is a 32-bit word, \<open>ULONG_PTR\<close> and
  \<open>size_t\<close> are 64-bit words (an x64 build), \<open>int\<close> counters are integers that
  stay within the bounds proved below.
\<close>

type_synonym DWORD = "32 word"
type_synonym ULONG_PTR = "64 word"

text \<open>Constants of \<open>main.cpp\<close> (lines 18 and 21).\<close>

definition kExceptionCommsCode :: DWORD where
  "kExceptionCommsCode = 0x1337"

definition kTestIterations :: int where
  "kTestIterations = 10000"

text \<open>Constants of the Windows SDK and of \<open>cstdlib\<close> that the program names.\<close>

definition EXCEPTION_DEBUG_EVENT :: DWORD where
  "EXCEPTION_DEBUG_EVENT = 1"

definition DBG_CONTINUE :: DWORD where
  "DBG_CONTINUE = 0x00010002"

definition ERROR_SUCCESS :: DWORD where
  "ERROR_SUCCESS = 0"

definition ERROR_ALREADY_EXISTS :: DWORD where
  "ERROR_ALREADY_EXISTS = 183"

definition EXIT_SUCCESS :: int where
  "EXIT_SUCCESS = 0"

definition EXIT_FAILURE :: int where
  "EXIT_FAILURE = 1"

text \<open>\<open>struct SharedData\<close> (lines 23 to 26).\<close>

record SharedData =
  server_pid :: DWORD
  client_pid :: DWORD

text \<open>
  The fields of \<open>EXCEPTION_RECORD\<close> and \<open>DEBUG_EVENT\<close> that the program reads or
  writes. The member \<open>u.Exception.ExceptionRecord\<close> of the union is read only when
  the event code says the event is an exception; for another event it holds whatever
  bytes that event put there.
\<close>

record EXCEPTION_RECORD =
  ExceptionCode :: DWORD
  ExceptionFlags :: DWORD
  NumberParameters :: DWORD
  ExceptionInformation :: "ULONG_PTR list"

record DEBUG_EVENT =
  dwDebugEventCode :: DWORD
  dwProcessId :: DWORD
  dwThreadId :: DWORD
  u_Exception_ExceptionRecord :: EXCEPTION_RECORD

text \<open>What the system answers to a call.\<close>

datatype os_bool = Succeeded | Failed DWORD
  \<comment> \<open>a \<open>BOOL\<close> or pointer result; on failure, what \<open>GetLastError\<close> returns next\<close>

datatype wait_result = WaitOk DEBUG_EVENT | WaitFailed DWORD
  \<comment> \<open>\<open>WaitForDebugEvent\<close>: the event it stored, or failure with its error code\<close>

datatype create_result = CreateFailed DWORD | CreatedFresh | OpenedExisting
  \<comment> \<open>\<open>CreateFileMappingA\<close>: no handle, a new mapping, or the existing one\<close>

text \<open>The lines the program prints, by the statement that prints them.\<close>

datatype message =
    Msg_usage
  | Msg_attaching string DWORD
  | Msg_attach_failed string DWORD
  | Msg_wait_failed string DWORD
  | Msg_detach_failed string DWORD
  | Msg_detached string DWORD
  | Msg_round1_server_sends
  | Msg_round1_client_debugs
  | Msg_round2_server_debugs
  | Msg_round2_client_sends
  | Msg_server_sent int
  | Msg_client_sent int
  | Msg_error_creating_mapping DWORD
  | Msg_error_mapping_view DWORD
  | Msg_role_server DWORD
  | Msg_role_client DWORD
  | Msg_client_did_not_join
  | Msg_connected DWORD
  | Msg_complete

text \<open>
  One entry per call, with its arguments and, where the program uses it, its result.
  \<open>Sys_WaitForDebugEvent_pending\<close> is a call of \<open>WaitForDebugEvent\<close> with the
  timeout \<open>INFINITE\<close> that never returns, because the system has no further event.
\<close>

datatype api_call =
    Cout message
  | Cerr message
  | Sys_DebugActiveProcess DWORD os_bool
  | Sys_WaitForDebugEvent wait_result
  | Sys_WaitForDebugEvent_pending
  | Sys_ContinueDebugEvent DWORD DWORD DWORD
  | Sys_DebugActiveProcessStop DWORD os_bool
  | Sys_RaiseException DWORD DWORD DWORD "ULONG_PTR list"
  | Sys_sleep_for nat
  | Sys_clock_now
  | Sys_CreateFileMappingA create_result
  | Sys_MapViewOfFile os_bool
  | Sys_UnmapViewOfFile
  | Sys_CloseHandle
  | Shm_store_server_pid DWORD
  | Shm_store_client_pid DWORD
  | Shm_load_server_pid DWORD
  | Shm_load_client_pid DWORD

section \<open>The Debug-Event Counter\<close>

text \<open>
  The loop of \<open>DebugPartnerProcess\<close> (lines 55 to 73). Its state is \<open>count\<close>; the
  list is what the successive calls of \<open>WaitForDebugEvent\<close> answer. When the list is
  used up the next call blocks for ever: the loop is then still waiting, with the count
  it has. The result holds the count, how the loop was left, and the calls made.
\<close>

datatype loop_exit = TargetReached | WaitFailure | StillWaiting

record loop_result =
  final_count :: int
  exit_by :: loop_exit
  loop_calls :: "api_call list"

fun count_loop :: "string \<Rightarrow> int \<Rightarrow> int \<Rightarrow> wait_result list \<Rightarrow> loop_result" where
  "count_loop role iterations count rs =
     (if count < iterations then
        (case rs of
           [] \<Rightarrow>
             \<lparr>final_count = count, exit_by = StillWaiting,
              loop_calls = [Sys_WaitForDebugEvent_pending]\<rparr>
         | WaitOk event # rs' \<Rightarrow>
             (let count' =
                (if dwDebugEventCode event = EXCEPTION_DEBUG_EVENT then
                   (let record = u_Exception_ExceptionRecord event in
                    if ExceptionCode record = kExceptionCommsCode \<and>
                       2 \<le> NumberParameters record
                    then count + 1 else count)
                 else count);
                  r = count_loop role iterations count' rs'
              in r\<lparr>loop_calls :=
                    Sys_WaitForDebugEvent (WaitOk event) #
                    Sys_ContinueDebugEvent (dwProcessId event) (dwThreadId event) DBG_CONTINUE #
                    loop_calls r\<rparr>)
         | WaitFailed err # rs' \<Rightarrow>
             \<lparr>final_count = count, exit_by = WaitFailure,
              loop_calls = [Sys_WaitForDebugEvent (WaitFailed err),
                            Cerr (Msg_wait_failed role err)]\<rparr>)
      else \<lparr>final_count = count, exit_by = TargetReached, loop_calls = []\<rparr>)"

declare count_loop.simps [simp del]

text \<open>
  How a call of a function of the program ends: it returns (with its value), it never
  returns because a wait blocks for ever, or a structured exception leaves it unhandled.
  Each case carries the calls made so far.
\<close>

datatype 'a run =
    Returns 'a "api_call list"
  | Hangs "api_call list"
  | Unwinds EXCEPTION_RECORD "api_call list"

fun calls_of :: "'a run \<Rightarrow> api_call list" where
  "calls_of (Returns a cs) = cs"
| "calls_of (Hangs cs) = cs"
| "calls_of (Unwinds e cs) = cs"

fun after :: "api_call list \<Rightarrow> 'a run \<Rightarrow> 'a run" where
  "after pre (Returns a cs) = Returns a (pre @ cs)"
| "after pre (Hangs cs) = Hangs (pre @ cs)"
| "after pre (Unwinds e cs) = Unwinds e (pre @ cs)"

text \<open>Sequencing of two statements: the second runs only when the first returns.\<close>

fun then_run :: "'a run \<Rightarrow> ('a \<Rightarrow> 'b run) \<Rightarrow> 'b run" where
  "then_run (Returns a cs) f = after cs (f a)"
| "then_run (Hangs cs) f = Hangs cs"
| "then_run (Unwinds e cs) f = Unwinds e cs"

text \<open>
  The environment of one process: what the system answers to each call the program
  makes. \<open>env_shared k\<close> is the content of the shared mapping at the \<open>k\<close>-th step
  of the negotiation (the other process writes to it in between); \<open>env_literal\<close> is
  the address of the literal \<open>"hello, world!"\<close>.
\<close>

record os_env =
  env_create :: create_result
  env_map :: os_bool
  env_pid :: DWORD
  env_shared :: "nat \<Rightarrow> SharedData"
  env_literal :: ULONG_PTR
  env_attach :: os_bool
  env_events :: "wait_result list"
  env_detach :: os_bool

text \<open>\<open>DebugPartnerProcess\<close> (lines 45 to 83).\<close>

definition DebugPartnerProcess :: "os_env \<Rightarrow> DWORD \<Rightarrow> string \<Rightarrow> int \<Rightarrow> unit run" where
  "DebugPartnerProcess env partner_pid role iterations =
     after [Cout (Msg_attaching role partner_pid),
            Sys_DebugActiveProcess partner_pid (env_attach env)]
       (case env_attach env of
          Failed err \<Rightarrow> Returns () [Cerr (Msg_attach_failed role err)]
        | Succeeded \<Rightarrow>
            (let r = count_loop role iterations 0 (env_events env) in
             case exit_by r of
               StillWaiting \<Rightarrow> Hangs (loop_calls r)
             | _ \<Rightarrow>
                 Returns ()
                   (loop_calls r @
                    [Sys_DebugActiveProcessStop partner_pid (env_detach env)] @
                    (case env_detach env of
                       Failed err \<Rightarrow> [Cerr (Msg_detach_failed role err)]
                     | Succeeded \<Rightarrow> [Cout (Msg_detached role partner_pid)]))))"

section \<open>The Exception Sender\<close>

text \<open>
  A \<open>std::string_view\<close> is a pointer and a size. The one made from a string literal
  (a \<open>const char*\<close>) has the literal's address, and as size the number of characters
  before the first NUL, as \<open>strlen\<close> measures it: the characters of the literal up to
  a NUL written in it, or all of them when there is none (the terminator follows).
\<close>

record string_view =
  sv_data :: ULONG_PTR
  sv_size :: ULONG_PTR

definition string_view_of :: "ULONG_PTR \<Rightarrow> string \<Rightarrow> string_view" where
  "string_view_of address literal =
     \<lparr>sv_data = address,
      sv_size = of_nat (length (takeWhile (\<lambda>c. c \<noteq> CHR 0x00) literal))\<rparr>"

text \<open>
  \<open>RaiseException\<close> builds the exception record from its arguments and starts the
  dispatch: seen from the calling frame, the call is left by the exception (what a
  debugger attached to the process sees of it is an event in the environment of that
  other process, \<open>env_events\<close>). A
  \<open>__try\<close> block with an \<open>__except\<close> filter handles the exception when the filter
  says \<open>EXCEPTION_EXECUTE_HANDLER\<close> and lets it pass when it says
  \<open>EXCEPTION_CONTINUE_SEARCH\<close>.
\<close>

definition RaiseException :: "DWORD \<Rightarrow> DWORD \<Rightarrow> DWORD \<Rightarrow> ULONG_PTR list \<Rightarrow> unit run" where
  "RaiseException dwExceptionCode dwExceptionFlags nNumberOfArguments lpArguments =
     Unwinds
       \<lparr>ExceptionCode = dwExceptionCode, ExceptionFlags = dwExceptionFlags,
        NumberParameters = nNumberOfArguments,
        ExceptionInformation = take (unat nNumberOfArguments) lpArguments\<rparr>
       [Sys_RaiseException dwExceptionCode dwExceptionFlags nNumberOfArguments lpArguments]"

datatype filter_value = EXCEPTION_EXECUTE_HANDLER | EXCEPTION_CONTINUE_SEARCH

fun try_except :: "'a run \<Rightarrow> (EXCEPTION_RECORD \<Rightarrow> filter_value) \<Rightarrow> 'a run \<Rightarrow> 'a run" where
  "try_except (Unwinds e cs) filter_expr handler =
     (case filter_expr e of
        EXCEPTION_EXECUTE_HANDLER \<Rightarrow> after cs handler
      | EXCEPTION_CONTINUE_SEARCH \<Rightarrow> Unwinds e cs)"
| "try_except (Returns a cs) filter_expr handler = Returns a cs"
| "try_except (Hangs cs) filter_expr handler = Hangs cs"

text \<open>\<open>SendMessageException\<close> (lines 30 to 42).\<close>

definition SendMessageException :: "string_view \<Rightarrow> unit run" where
  "SendMessageException message =
     (let params = [sv_data message, sv_size message + 1] in
      try_except (RaiseException kExceptionCommsCode 0 2 params)
        (\<lambda>_. EXCEPTION_EXECUTE_HANDLER) (Returns () []))"

section \<open>The Round Orchestrator\<close>

text \<open>The \<open>for\<close> loop of both rounds (lines 94 to 96 and 120 to 122), from \<open>i\<close> on.\<close>

function send_loop :: "ULONG_PTR \<Rightarrow> int \<Rightarrow> unit run" where
  "send_loop literal i =
     (if i < kTestIterations then
        then_run (SendMessageException (string_view_of literal ''hello, world!''))
          (\<lambda>_. send_loop literal (i + 1))
      else Returns () [])"
  by pat_completeness auto
termination
  by (relation "measure (\<lambda>(literal, i). nat (kTestIterations - i))") auto

declare send_loop.simps [simp del]

text \<open>
  \<open>RunSpeedTestRound\<close> (lines 88 to 107) and \<open>RunSwapRoleRound\<close> (lines 110 to 129).
  The elapsed time and the rate are floating-point values of the clock; the printed line
  is kept with its iteration count only.
\<close>

definition RunSpeedTestRound :: "os_env \<Rightarrow> bool \<Rightarrow> DWORD \<Rightarrow> unit run" where
  "RunSpeedTestRound env is_server partner_pid =
     (if is_server then
        after [Sys_sleep_for 3, Cout Msg_round1_server_sends, Sys_clock_now]
          (then_run (send_loop (env_literal env) 0)
             (\<lambda>_. Returns () [Sys_clock_now, Cout (Msg_server_sent kTestIterations)]))
      else
        after [Cout Msg_round1_client_debugs]
          (DebugPartnerProcess env partner_pid ''Client'' kTestIterations))"

definition RunSwapRoleRound :: "os_env \<Rightarrow> bool \<Rightarrow> DWORD \<Rightarrow> unit run" where
  "RunSwapRoleRound env is_server partner_pid =
     (if is_server then
        after [Cout Msg_round2_server_debugs]
          (DebugPartnerProcess env partner_pid ''Server'' kTestIterations)
      else
        after [Sys_sleep_for 3, Cout Msg_round2_client_sends, Sys_clock_now]
          (then_run (send_loop (env_literal env) 0)
             (\<lambda>_. Returns () [Sys_clock_now, Cout (Msg_client_sent kTestIterations)])))"

text \<open>The two calls of \<open>main\<close> that run the rounds (lines 184 and 185).\<close>

definition run_rounds :: "os_env \<Rightarrow> bool \<Rightarrow> DWORD \<Rightarrow> unit run" where
  "run_rounds env is_server partner_pid =
     then_run (RunSpeedTestRound env is_server partner_pid)
       (\<lambda>_. RunSwapRoleRound env is_server partner_pid)"

section \<open>The Role Negotiator and \<open>main\<close>\<close>

text \<open>
  The last-error code of the thread. \<open>CreateFileMappingA\<close> sets it to
  \<open>ERROR_ALREADY_EXISTS\<close> when it returns the handle of a mapping that existed, and to
  \<open>ERROR_SUCCESS\<close> when it created the mapping; a failing call sets it to its error; a
  call that succeeds otherwise leaves it as it was. Line 156 reads it after both calls.
\<close>

definition last_error_of_create :: "create_result \<Rightarrow> DWORD" where
  "last_error_of_create r =
     (case r of
        CreateFailed err \<Rightarrow> err
      | CreatedFresh \<Rightarrow> ERROR_SUCCESS
      | OpenedExisting \<Rightarrow> ERROR_ALREADY_EXISTS)"

definition last_error_after :: "DWORD \<Rightarrow> os_bool \<Rightarrow> DWORD" where
  "last_error_after previous r = (case r of Failed err \<Rightarrow> err | Succeeded \<Rightarrow> previous)"

definition GetLastError_at_156 :: "create_result \<Rightarrow> os_bool \<Rightarrow> DWORD" where
  "GetLastError_at_156 created mapped = last_error_after (last_error_of_create created) mapped"

text \<open>
  Lines 160 to 180, one step per access to the shared mapping, so that the steps of two
  processes can be interleaved. A step takes the content of the mapping and returns the
  next program point, the content after the step and the calls made. The program points
  are named by the statement to run next; \<open>Joined\<close> holds \<open>partner_pid\<close> at line
  182, \<open>No_client\<close> is the branch of line 169.
\<close>

datatype neg_pc =
    At_store_server_pid
  | At_store_client_pid
  | At_poll int
  | At_load_partner
  | At_load_server_pid
  | At_store_own_pid DWORD
  | Joined DWORD
  | No_client

fun neg_step :: "DWORD \<Rightarrow> neg_pc \<Rightarrow> SharedData \<Rightarrow> neg_pc \<times> SharedData \<times> api_call list" where
  "neg_step my_pid At_store_server_pid shared =
     (At_store_client_pid, shared\<lparr>server_pid := my_pid\<rparr>, [Shm_store_server_pid my_pid])"
| "neg_step my_pid At_store_client_pid shared =
     (At_poll 0, shared\<lparr>client_pid := 0\<rparr>, [Shm_store_client_pid 0])"
| "neg_step my_pid (At_poll i) shared =
     (if i < 10 then
        (if client_pid shared = 0
         then (At_poll (i + 1), shared, [Shm_load_client_pid (client_pid shared), Sys_sleep_for 1])
         else (At_load_partner, shared, [Shm_load_client_pid (client_pid shared)]))
      else (At_load_partner, shared, []))"
| "neg_step my_pid At_load_partner shared =
     (let partner_pid = client_pid shared in
      (if partner_pid = 0 then No_client else Joined partner_pid, shared,
       [Shm_load_client_pid partner_pid]))"
| "neg_step my_pid At_load_server_pid shared =
     (let partner_pid = server_pid shared in
      (At_store_own_pid partner_pid, shared, [Shm_load_server_pid partner_pid]))"
| "neg_step my_pid (At_store_own_pid partner_pid) shared =
     (Joined partner_pid, shared\<lparr>client_pid := my_pid\<rparr>, [Shm_store_client_pid my_pid])"
| "neg_step my_pid (Joined partner_pid) shared = (Joined partner_pid, shared, [])"
| "neg_step my_pid No_client shared = (No_client, shared, [])"

fun finished :: "neg_pc \<Rightarrow> bool" where
  "finished (Joined partner_pid) = True"
| "finished No_client = True"
| "finished pc = False"

fun steps_left :: "neg_pc \<Rightarrow> nat" where
  "steps_left At_store_server_pid = 14"
| "steps_left At_store_client_pid = 13"
| "steps_left (At_poll i) = 2 + nat (10 - i)"
| "steps_left At_load_partner = 1"
| "steps_left At_load_server_pid = 2"
| "steps_left (At_store_own_pid partner_pid) = 1"
| "steps_left (Joined partner_pid) = 0"
| "steps_left No_client = 0"

definition entry_pc :: "bool \<Rightarrow> neg_pc" where
  "entry_pc is_server = (if is_server then At_store_server_pid else At_load_server_pid)"

text \<open>
  One process on its own: it runs its steps to the end; at its \<open>k\<close>-th step the
  mapping holds \<open>mem k\<close>.
\<close>

function negotiate :: "DWORD \<Rightarrow> (nat \<Rightarrow> SharedData) \<Rightarrow> nat \<Rightarrow> neg_pc \<Rightarrow> neg_pc \<times> api_call list" where
  "negotiate my_pid mem k pc =
     (if finished pc then (pc, [])
      else
        (let step = neg_step my_pid pc (mem k);
             rest = negotiate my_pid mem (Suc k) (fst step)
         in (fst rest, snd (snd step) @ snd rest)))"
  by pat_completeness auto
termination
proof (relation "measure (\<lambda>(my_pid, mem, k, pc). steps_left pc)")
  show "wf (measure (\<lambda>(my_pid, mem, k, pc). steps_left pc))"
    by simp
next
  fix my_pid :: DWORD and mem :: "nat \<Rightarrow> SharedData" and k :: nat and pc :: neg_pc
    and step :: "neg_pc \<times> SharedData \<times> api_call list"
  assume "\<not> finished pc" and "step = neg_step my_pid pc (mem k)"
  then show "((my_pid, mem, Suc k, fst step), (my_pid, mem, k, pc))
      \<in> measure (\<lambda>(my_pid, mem, k, pc). steps_left pc)"
    by (cases pc) (auto simp: Let_def)
qed

declare negotiate.simps [simp del]

text \<open>
  Line 156, and lines 160 to 180 as this process runs them, from the entry its role
  gives it.
\<close>

definition is_server_of :: "os_env \<Rightarrow> bool" where
  "is_server_of env \<longleftrightarrow>
     GetLastError_at_156 (env_create env) (env_map env) \<noteq> ERROR_ALREADY_EXISTS"

definition negotiated :: "os_env \<Rightarrow> neg_pc \<times> api_call list" where
  "negotiated env = negotiate (env_pid env) (env_shared env) 0 (entry_pc (is_server_of env))"

text \<open>\<open>main\<close> (lines 131 to 192); \<open>argc\<close> is the length of \<open>argv\<close>.\<close>

definition main :: "string list \<Rightarrow> os_env \<Rightarrow> int run" where
  "main argv env =
     (if length argv < 2 \<or> argv ! 1 \<noteq> ''speed'' then Returns EXIT_SUCCESS [Cout Msg_usage]
      else
        after [Sys_CreateFileMappingA (env_create env)]
          (case env_create env of
             CreateFailed err \<Rightarrow> Returns EXIT_FAILURE [Cerr (Msg_error_creating_mapping err)]
           | _ \<Rightarrow>
               after [Sys_MapViewOfFile (env_map env)]
                 (case env_map env of
                    Failed err \<Rightarrow>
                      Returns EXIT_FAILURE [Cerr (Msg_error_mapping_view err), Sys_CloseHandle]
                  | Succeeded \<Rightarrow>
                      (let is_server = is_server_of env;
                           my_pid = env_pid env
                       in after
                            (Cout ((if is_server then Msg_role_server else Msg_role_client) my_pid)
                             # snd (negotiated env))
                            (case fst (negotiated env) of
                               Joined partner_pid \<Rightarrow>
                                 after [Cout (Msg_connected partner_pid)]
                                   (then_run (run_rounds env is_server partner_pid)
                                      (\<lambda>_. Returns EXIT_SUCCESS
                                         [Sys_UnmapViewOfFile, Sys_CloseHandle, Cout Msg_complete]))
                             | _ \<Rightarrow>
                                 Returns EXIT_FAILURE
                                   [Cerr Msg_client_did_not_join, Sys_UnmapViewOfFile,
                                    Sys_CloseHandle])))))"

section \<open>Two processes negotiating\<close>

text \<open>
  The first process is the one whose \<open>CreateFileMappingA\<close> created the mapping, the
  second the one that opened it; both mapped their view. Each enters lines 160 to 180 by
  the role line 156 gives it. A schedule says which process takes the next step (\<open>True\<close>:
  the first); a step of a process that has finished changes nothing.
\<close>

record negotiation =
  first_pc :: neg_pc
  second_pc :: neg_pc
  mapping :: SharedData

definition start_negotiation :: "SharedData \<Rightarrow> negotiation" where
  "start_negotiation initial =
     \<lparr>first_pc = entry_pc (GetLastError_at_156 CreatedFresh Succeeded \<noteq> ERROR_ALREADY_EXISTS),
      second_pc = entry_pc (GetLastError_at_156 OpenedExisting Succeeded \<noteq> ERROR_ALREADY_EXISTS),
      mapping = initial\<rparr>"

definition step_of :: "DWORD \<Rightarrow> DWORD \<Rightarrow> bool \<Rightarrow> negotiation \<Rightarrow> negotiation" where
  "step_of first_pid second_pid first s =
     (if first then
        (let step = neg_step first_pid (first_pc s) (mapping s)
         in s\<lparr>first_pc := fst step, mapping := fst (snd step)\<rparr>)
      else
        (let step = neg_step second_pid (second_pc s) (mapping s)
         in s\<lparr>second_pc := fst step, mapping := fst (snd step)\<rparr>))"

fun run_schedule :: "DWORD \<Rightarrow> DWORD \<Rightarrow> bool list \<Rightarrow> negotiation \<Rightarrow> negotiation" where
  "run_schedule first_pid second_pid [] s = s"
| "run_schedule first_pid second_pid (b # bs) s =
     run_schedule first_pid second_pid bs (step_of first_pid second_pid b s)"

section \<open>Properties of lists of calls\<close>

text \<open>
  The classification rule of the counter as the specification words it: an exception
  event whose code is the sentinel and that has at least two parameters.
\<close>

definition is_comms_event :: "DEBUG_EVENT \<Rightarrow> bool" where
  "is_comms_event event \<longleftrightarrow>
     dwDebugEventCode event = EXCEPTION_DEBUG_EVENT \<and>
     ExceptionCode (u_Exception_ExceptionRecord event) = kExceptionCommsCode \<and>
     2 \<le> NumberParameters (u_Exception_ExceptionRecord event)"

text \<open>The events that calls of \<open>WaitForDebugEvent\<close> delivered, in order.\<close>

fun received_events :: "api_call list \<Rightarrow> DEBUG_EVENT list" where
  "received_events [] = []"
| "received_events (Sys_WaitForDebugEvent (WaitOk event) # cs) = event # received_events cs"
| "received_events (c # cs) = received_events cs"

text \<open>
  \<open>acknowledged pending cs\<close>: reading the calls \<open>cs\<close> in order, with \<open>pending\<close> the
  event received and not yet continued, every received event is continued (for its own
  process and thread) exactly once before the next call of \<open>WaitForDebugEvent\<close>, no
  event is continued that was not received, and none is left at the end.
\<close>

fun acknowledged :: "DEBUG_EVENT option \<Rightarrow> api_call list \<Rightarrow> bool" where
  "acknowledged pending [] = (pending = None)"
| "acknowledged pending (Sys_WaitForDebugEvent (WaitOk event) # cs) =
     (pending = None \<and> acknowledged (Some event) cs)"
| "acknowledged pending (Sys_WaitForDebugEvent (WaitFailed err) # cs) =
     (pending = None \<and> acknowledged None cs)"
| "acknowledged pending (Sys_WaitForDebugEvent_pending # cs) =
     (pending = None \<and> acknowledged None cs)"
| "acknowledged pending (Sys_ContinueDebugEvent pid tid status # cs) =
     (case pending of
        None \<Rightarrow> False
      | Some event \<Rightarrow>
          pid = dwProcessId event \<and> tid = dwThreadId event \<and> acknowledged None cs)"
| "acknowledged pending (c # cs) = acknowledged pending cs"

text \<open>The events among the answers of \<open>WaitForDebugEvent\<close>.\<close>

fun events_of :: "wait_result list \<Rightarrow> DEBUG_EVENT list" where
  "events_of [] = []"
| "events_of (WaitOk event # rs) = event # events_of rs"
| "events_of (WaitFailed err # rs) = events_of rs"



text \<open>The calls that belong to a round: sending, or debugging the partner.\<close>

fun is_round_call :: "api_call \<Rightarrow> bool" where
  "is_round_call (Sys_RaiseException code flags n args) = True"
| "is_round_call (Sys_DebugActiveProcess pid r) = True"
| "is_round_call (Sys_WaitForDebugEvent r) = True"
| "is_round_call Sys_WaitForDebugEvent_pending = True"
| "is_round_call (Sys_ContinueDebugEvent pid tid status) = True"
| "is_round_call (Sys_DebugActiveProcessStop pid r) = True"
| "is_round_call c = False"

fun is_sleep :: "api_call \<Rightarrow> bool" where
  "is_sleep (Sys_sleep_for seconds) = True"
| "is_sleep c = False"

text \<open>
  Invariants of the two-process negotiation. \<open>server_side_ok\<close>: once the first
  process has cleared \<open>client_pid\<close>, the field holds zero or the pid of the second
  process, and a partner the first process has read is that pid. \<open>client_side_ok\<close>:
  the second process is in its own branch, and a partner it has read satisfies
  \<open>seen\<close>. \<open>in_order_inv\<close> adds that the first process has stored its pid in
  \<open>server_pid\<close> before the second process read the field.
\<close>

fun server_side_ok :: "DWORD \<Rightarrow> neg_pc \<Rightarrow> SharedData \<Rightarrow> bool" where
  "server_side_ok second_pid At_store_server_pid shared = True"
| "server_side_ok second_pid At_store_client_pid shared = True"
| "server_side_ok second_pid (At_poll i) shared =
     (client_pid shared = 0 \<or> client_pid shared = second_pid)"
| "server_side_ok second_pid At_load_partner shared =
     (client_pid shared = 0 \<or> client_pid shared = second_pid)"
| "server_side_ok second_pid No_client shared = True"
| "server_side_ok second_pid (Joined partner_pid) shared =
     (partner_pid = second_pid \<and> client_pid shared = second_pid)"
| "server_side_ok second_pid pc shared = False"

fun client_side_ok :: "(DWORD \<Rightarrow> bool) \<Rightarrow> neg_pc \<Rightarrow> bool" where
  "client_side_ok seen At_load_server_pid = True"
| "client_side_ok seen (At_store_own_pid partner_pid) = seen partner_pid"
| "client_side_ok seen (Joined partner_pid) = seen partner_pid"
| "client_side_ok seen pc = False"

definition any_order_inv :: "DWORD \<Rightarrow> negotiation \<Rightarrow> bool" where
  "any_order_inv second_pid s \<longleftrightarrow>
     server_side_ok second_pid (first_pc s) (mapping s) \<and>
     client_side_ok (\<lambda>p. True) (second_pc s)"

definition in_order_inv :: "DWORD \<Rightarrow> DWORD \<Rightarrow> negotiation \<Rightarrow> bool" where
  "in_order_inv first_pid second_pid s \<longleftrightarrow>
     server_side_ok second_pid (first_pc s) (mapping s) \<and>
     first_pc s \<noteq> At_store_server_pid \<and>
     server_pid (mapping s) = first_pid \<and>
     client_side_ok (\<lambda>p. p = first_pid) (second_pc s)"

section \<open>Sample inputs\<close>

text \<open>
  An exception event as the partner's sender raises it, and a thread-creation event
  (code 2) whose union bytes happen to read like the sentinel.
\<close>

definition sample_comms_event :: DEBUG_EVENT where
  "sample_comms_event =
     \<lparr>dwDebugEventCode = 1, dwProcessId = 5678, dwThreadId = 9,
      u_Exception_ExceptionRecord =
        \<lparr>ExceptionCode = 0x1337, ExceptionFlags = 0, NumberParameters = 2,
         ExceptionInformation = [4096, 14]\<rparr>\<rparr>"

definition sample_thread_event :: DEBUG_EVENT where
  "sample_thread_event =
     \<lparr>dwDebugEventCode = 2, dwProcessId = 5678, dwThreadId = 10,
      u_Exception_ExceptionRecord =
        \<lparr>ExceptionCode = 0x1337, ExceptionFlags = 0, NumberParameters = 2,
         ExceptionInformation = []\<rparr>\<rparr>"

text \<open>
  A second process: it opened the mapping the first process (pid 1234) created and
  initialised, and the system has no debug event for it.
\<close>

definition sample_env :: os_env where
  "sample_env =
     \<lparr>env_create = OpenedExisting, env_map = Succeeded, env_pid = 5678,
      env_shared = (\<lambda>k. \<lparr>server_pid = 1234, client_pid = 0\<rparr>),
      env_literal = 4096, env_attach = Succeeded, env_events = [],
      env_detach = Succeeded\<rparr>"

section \<open>The counting loop: unfolding and invariants\<close>

lemma count_loop_reached:
  "\<not> c < n \<Longrightarrow> count_loop role n c rs =
     \<lparr>final_count = c, exit_by = TargetReached, loop_calls = []\<rparr>"
  by (simp add: count_loop.simps)

lemma count_loop_Nil:
  "c < n \<Longrightarrow> count_loop role n c [] =
     \<lparr>final_count = c, exit_by = StillWaiting, loop_calls = [Sys_WaitForDebugEvent_pending]\<rparr>"
  by (simp add: count_loop.simps)

lemma count_loop_failed:
  "c < n \<Longrightarrow> count_loop role n c (WaitFailed err # rs) =
     \<lparr>final_count = c, exit_by = WaitFailure,
      loop_calls = [Sys_WaitForDebugEvent (WaitFailed err), Cerr (Msg_wait_failed role err)]\<rparr>"
  by (simp add: count_loop.simps)

lemma count_loop_event:
  "c < n \<Longrightarrow> count_loop role n c (WaitOk event # rs) =
     (count_loop role n (if is_comms_event event then c + 1 else c) rs)
       \<lparr>loop_calls :=
          Sys_WaitForDebugEvent (WaitOk event) #
          Sys_ContinueDebugEvent (dwProcessId event) (dwThreadId event) DBG_CONTINUE #
          loop_calls (count_loop role n (if is_comms_event event then c + 1 else c) rs)\<rparr>"
  by (subst count_loop.simps) (simp add: is_comms_event_def Let_def)

lemmas count_loop_unfold =
  count_loop_reached count_loop_Nil count_loop_failed count_loop_event

lemma count_loop_cases:
  fixes c n :: int and rs :: "wait_result list"
  obtains (reached) "\<not> c < n"
  | (blocked) "c < n" "rs = []"
  | (failed) err rs' where "c < n" "rs = WaitFailed err # rs'"
  | (event) ev rs' where "c < n" "rs = WaitOk ev # rs'"
  by (cases rs; cases "c < n"; (cases "hd rs")?) auto

lemma waiting_calls_nonempty:
  "exit_by (count_loop role n c ps) = StillWaiting \<Longrightarrow> loop_calls (count_loop role n c ps) \<noteq> []"
  by (cases rule: count_loop_cases [where c = c and n = n and rs = ps]) (simp_all add: count_loop_unfold)

lemma count_loop_append_waiting:
  "exit_by (count_loop role n c ps) = StillWaiting \<Longrightarrow>
   count_loop role n c (ps @ rs) =
     (count_loop role n (final_count (count_loop role n c ps)) rs)
       \<lparr>loop_calls := butlast (loop_calls (count_loop role n c ps)) @
          loop_calls (count_loop role n (final_count (count_loop role n c ps)) rs)\<rparr>"
proof (induction ps arbitrary: c)
  case Nil
  then show ?case by (cases "c < n") (simp_all add: count_loop_unfold)
next
  case (Cons p ps)
  show ?case
  proof (cases "c < n")
    case False
    with Cons.prems show ?thesis by (simp add: count_loop_unfold)
  next
    case True
    show ?thesis
    proof (cases p)
      case (WaitFailed err)
      with True Cons.prems show ?thesis by (simp add: count_loop_unfold)
    next
      case (WaitOk ev)
      let ?c = "if is_comms_event ev then c + 1 else c"
      from True WaitOk Cons.prems have w: "exit_by (count_loop role n ?c ps) = StillWaiting"
        by (simp add: count_loop_unfold)
      have ne: "loop_calls (count_loop role n ?c ps) \<noteq> []"
        using w by (rule waiting_calls_nonempty)
      show ?thesis using True WaitOk Cons.IH [OF w] ne
        by (simp add: count_loop_unfold)
    qed
  qed
qed

lemma count_loop_append_left:
  "exit_by (count_loop role n c ps) \<noteq> StillWaiting \<Longrightarrow>
   count_loop role n c (ps @ rs) = count_loop role n c ps"
proof (induction ps arbitrary: c)
  case Nil
  then show ?case by (cases "c < n") (simp_all add: count_loop_unfold)
next
  case (Cons p ps)
  then show ?case
    by (cases "c < n"; cases p) (simp_all add: count_loop_unfold)
qed

lemma final_count_ge: "c \<le> final_count (count_loop role n c rs)"
proof (induction rs arbitrary: c)
  case Nil
  then show ?case by (cases "c < n") (simp_all add: count_loop_unfold)
next
  case (Cons p ps)
  show ?case
  proof (cases rule: count_loop_cases [where c = c and n = n and rs = "p # ps"])
    case (event ev rs')
    then show ?thesis
      using Cons.IH [of "c + 1"] Cons.IH [of c] by (simp add: count_loop_unfold)
  qed (simp_all add: count_loop_unfold)
qed

lemma final_count_le: "c \<le> n \<Longrightarrow> final_count (count_loop role n c rs) \<le> n"
proof (induction rs arbitrary: c)
  case Nil
  then show ?case by (cases "c < n") (simp_all add: count_loop_unfold)
next
  case (Cons p ps)
  show ?case
  proof (cases rule: count_loop_cases [where c = c and n = n and rs = "p # ps"])
    case (event ev rs')
    then show ?thesis
      using Cons.IH [of "c + 1"] Cons.IH [of c] by (simp add: count_loop_unfold)
  qed (use Cons.prems in \<open>simp_all add: count_loop_unfold\<close>)
qed

lemma exit_reached_iff: "exit_by (count_loop role n c rs) = TargetReached \<longleftrightarrow> n \<le> final_count (count_loop role n c rs)"
proof (induction rs arbitrary: c)
  case Nil
  then show ?case by (cases "c < n") (simp_all add: count_loop_unfold)
next
  case (Cons p ps)
  show ?case
  proof (cases rule: count_loop_cases [where c = c and n = n and rs = "p # ps"])
    case (event ev rs')
    then show ?thesis
      using Cons.IH [of "c + 1"] Cons.IH [of c] by (simp add: count_loop_unfold)
  qed (simp_all add: count_loop_unfold)
qed

lemma final_count_received:
  "final_count (count_loop role n c rs) =
     c + int (length (filter is_comms_event (received_events (loop_calls (count_loop role n c rs)))))"
proof (induction rs arbitrary: c)
  case Nil
  then show ?case by (cases "c < n") (simp_all add: count_loop_unfold)
next
  case (Cons p ps)
  show ?case
  proof (cases rule: count_loop_cases [where c = c and n = n and rs = "p # ps"])
    case (event ev rs')
    then show ?thesis
      using Cons.IH [of "c + 1"] Cons.IH [of c] by (simp add: count_loop_unfold)
  qed (simp_all add: count_loop_unfold)
qed

lemma one_more_event:
  assumes "exit_by (count_loop role n c ps) = StillWaiting"
  shows "final_count (count_loop role n c (ps @ [WaitOk ev])) =
         final_count (count_loop role n c ps) + (if is_comms_event ev then 1 else 0)"
proof -
  let ?k = "final_count (count_loop role n c ps)"
  have "\<not> n \<le> ?k" using assms exit_reached_iff [of role n c ps] by simp
  then have lt: "?k < n" by simp
  have "final_count (count_loop role n ?k [WaitOk ev]) = ?k + (if is_comms_event ev then 1 else 0)"
    using lt by (cases "?k + 1 < n") (simp_all add: count_loop_unfold)
  then show ?thesis
    by (simp add: count_loop_append_waiting [OF assms])
qed

lemma sample_events_classified [simp]:
  "is_comms_event sample_comms_event" "\<not> is_comms_event sample_thread_event"
  by (simp_all add: is_comms_event_def sample_comms_event_def sample_thread_event_def
      EXCEPTION_DEBUG_EVENT_def kExceptionCommsCode_def)

lemma acknowledged_loop: "acknowledged None (loop_calls (count_loop role n c rs))"
proof (induction rs arbitrary: c)
  case Nil
  then show ?case by (cases "c < n") (simp_all add: count_loop_unfold)
next
  case (Cons p ps)
  show ?case
  proof (cases rule: count_loop_cases [where c = c and n = n and rs = "p # ps"])
    case (event ev rs')
    then show ?thesis
      using Cons.IH [of "c + 1"] Cons.IH [of c] by (simp add: count_loop_unfold)
  qed (simp_all add: count_loop_unfold)
qed

lemma waiting_iff:
  "exit_by (count_loop role n c rs) = StillWaiting \<longleftrightarrow>
     (\<forall>err. WaitFailed err \<notin> set rs) \<and>
     c + int (length (filter is_comms_event (events_of rs))) < n"
proof (induction rs arbitrary: c)
  case Nil
  then show ?case by (cases "c < n") (simp_all add: count_loop_unfold)
next
  case (Cons p ps)
  show ?case
  proof (cases rule: count_loop_cases [where c = c and n = n and rs = "p # ps"])
    case (event ev rs')
    then show ?thesis
      using Cons.IH [of "c + 1"] Cons.IH [of c] by (auto simp add: count_loop_unfold)
  next
    case (failed err rs')
    then show ?thesis by (auto simp add: count_loop_unfold)
  qed (simp_all add: count_loop_unfold)
qed

lemma failure_shape:
  "exit_by (count_loop role n c rs) = WaitFailure \<Longrightarrow>
   \<exists>pre err. loop_calls (count_loop role n c rs) =
       pre @ [Sys_WaitForDebugEvent (WaitFailed err), Cerr (Msg_wait_failed role err)] \<and>
     (\<forall>e. Sys_WaitForDebugEvent (WaitFailed e) \<notin> set pre) \<and>
     Sys_WaitForDebugEvent_pending \<notin> set pre"
proof (induction rs arbitrary: c)
  case Nil
  then show ?case by (cases "c < n") (simp_all add: count_loop_unfold)
next
  case (Cons p ps)
  show ?case
  proof (cases rule: count_loop_cases [where c = c and n = n and rs = "p # ps"])
    case (event ev rs')
    let ?c = "if is_comms_event ev then c + 1 else c"
    from event Cons.prems have "exit_by (count_loop role n ?c ps) = WaitFailure"
      by (simp add: count_loop_unfold)
    from Cons.IH [OF this] obtain pre err where
      pre: "loop_calls (count_loop role n ?c ps) =
          pre @ [Sys_WaitForDebugEvent (WaitFailed err), Cerr (Msg_wait_failed role err)]"
        "\<forall>e. Sys_WaitForDebugEvent (WaitFailed e) \<notin> set pre"
        "Sys_WaitForDebugEvent_pending \<notin> set pre"
      by blast
    let ?pre = "Sys_WaitForDebugEvent (WaitOk ev) #
        Sys_ContinueDebugEvent (dwProcessId ev) (dwThreadId ev) DBG_CONTINUE # pre"
    have "loop_calls (count_loop role n c (p # ps)) =
        ?pre @ [Sys_WaitForDebugEvent (WaitFailed err), Cerr (Msg_wait_failed role err)]"
      using event pre(1) by (simp add: count_loop_unfold)
    moreover have "\<forall>e. Sys_WaitForDebugEvent (WaitFailed e) \<notin> set ?pre"
      using pre(2) by simp
    moreover have "Sys_WaitForDebugEvent_pending \<notin> set ?pre"
      using pre(3) by simp
    ultimately show ?thesis by blast
  next
    case (failed err rs')
    then show ?thesis by (simp add: count_loop_unfold)
  qed (use Cons.prems in \<open>simp_all add: count_loop_unfold\<close>)
qed

section \<open>Claims about the Debug-Event Counter\<close>

text \<open>
  C1. Whenever the loop, having consumed the answers \<open>ps\<close>, is waiting and the next
  call of \<open>WaitForDebugEvent\<close> delivers \<open>event\<close>, the count grows by one if the
  event is an exception event (code 1) whose exception code is \<open>0x1337\<close> and that has
  at least two parameters, and stays as it is for every other event. \<open>ps\<close> is any
  sequence of events, so unrelated events before it change nothing in the rule.
\<close>

theorem counter_increments_on_comms_exception_only:
  assumes "exit_by (count_loop role iterations 0 ps) = StillWaiting"
  shows "final_count (count_loop role iterations 0 (ps @ [WaitOk event])) =
         final_count (count_loop role iterations 0 ps) +
           (if dwDebugEventCode event = 1 \<and>
               ExceptionCode (u_Exception_ExceptionRecord event) = 0x1337 \<and>
               2 \<le> NumberParameters (u_Exception_ExceptionRecord event)
            then 1 else 0)"
  using one_more_event [OF assms, of event]
  by (simp add: is_comms_event_def EXCEPTION_DEBUG_EVENT_def kExceptionCommsCode_def)

theorem counter_increments_witness:
  "exit_by (count_loop ''Client'' 3 0 [WaitOk sample_thread_event]) = StillWaiting \<and>
   final_count (count_loop ''Client'' 3 0 [WaitOk sample_thread_event]) = 0 \<and>
   final_count (count_loop ''Client'' 3 0 ([WaitOk sample_thread_event] @ [WaitOk sample_comms_event])) = 1 \<and>
   final_count (count_loop ''Client'' 3 0 ([WaitOk sample_thread_event] @ [WaitOk sample_thread_event])) = 0"
proof -
  have w: "exit_by (count_loop ''Client'' 3 0 [WaitOk sample_thread_event]) = StillWaiting"
    by (simp add: count_loop_unfold)
  have z: "final_count (count_loop ''Client'' 3 0 [WaitOk sample_thread_event]) = 0"
    by (simp add: count_loop_unfold)
  show ?thesis
    using w z counter_increments_on_comms_exception_only [OF w, of sample_comms_event]
      counter_increments_on_comms_exception_only [OF w, of sample_thread_event]
    by (simp add: sample_comms_event_def sample_thread_event_def)
qed

lemma acknowledged_append:
  "acknowledged pending cs \<Longrightarrow> acknowledged pending (cs @ ds) = acknowledged None ds"
  by (induction pending cs rule: acknowledged.induct) (auto split: option.splits)

lemma acknowledged_debug:
  "acknowledged None (calls_of (DebugPartnerProcess env partner_pid role n))"
proof -
  let ?r = "count_loop role n 0 (env_events env)"
  have "acknowledged None (loop_calls ?r @ ds) = acknowledged None ds" for ds
    by (rule acknowledged_append) (rule acknowledged_loop)
  then show ?thesis
    using acknowledged_loop [of role n 0 "env_events env"]
    by (simp add: DebugPartnerProcess_def Let_def split: os_bool.splits loop_exit.splits)
qed

text \<open>
  C2. In the calls of the loop, and of \<open>DebugPartnerProcess\<close> as a whole, every event
  that \<open>WaitForDebugEvent\<close> delivered is continued, for its own process and thread,
  exactly once and before the next call of \<open>WaitForDebugEvent\<close>, whether it was
  counted or not; no event is left without its \<open>ContinueDebugEvent\<close>, also when the
  loop is left.
\<close>

theorem every_event_acknowledged:
  "acknowledged None (loop_calls (count_loop role iterations 0 rs)) \<and>
   acknowledged None (calls_of (DebugPartnerProcess env partner_pid role iterations))"
  by (simp add: acknowledged_loop acknowledged_debug)

theorem every_event_acknowledged_witness:
  "acknowledged None
     [Sys_WaitForDebugEvent (WaitOk sample_thread_event),
      Sys_ContinueDebugEvent 5678 10 DBG_CONTINUE,
      Sys_WaitForDebugEvent (WaitOk sample_comms_event),
      Sys_ContinueDebugEvent 5678 9 DBG_CONTINUE,
      Sys_WaitForDebugEvent (WaitFailed 6),
      Cerr (Msg_wait_failed ''Client'' 6)]"
proof -
  have "loop_calls (count_loop ''Client'' 3 0
          [WaitOk sample_thread_event, WaitOk sample_comms_event, WaitFailed 6]) =
     [Sys_WaitForDebugEvent (WaitOk sample_thread_event),
      Sys_ContinueDebugEvent 5678 10 DBG_CONTINUE,
      Sys_WaitForDebugEvent (WaitOk sample_comms_event),
      Sys_ContinueDebugEvent 5678 9 DBG_CONTINUE,
      Sys_WaitForDebugEvent (WaitFailed 6),
      Cerr (Msg_wait_failed ''Client'' 6)]"
    by (simp add: count_loop_unfold) (simp add: sample_comms_event_def sample_thread_event_def)
  then show ?thesis
    using every_event_acknowledged [of "''Client''" 3
        "[WaitOk sample_thread_event, WaitOk sample_comms_event, WaitFailed 6]"]
    by simp
qed

text \<open>
  C5. The loop is left exactly when the events delivered contain as many counted events
  as the target asks for, or when some call of \<open>WaitForDebugEvent\<close> fails; otherwise
  it keeps waiting. It is left on the target exactly when the count has reached it. When
  it is left on a failed wait, the count is below the target (the count of the events
  received before), the failure is the last call of \<open>WaitForDebugEvent\<close> (no retry),
  and it is reported on standard error.
\<close>

theorem counter_loop_termination:
  "(exit_by (count_loop role iterations 0 rs) \<noteq> StillWaiting) =
     (iterations \<le> int (length (filter is_comms_event (events_of rs))) \<or>
      (\<exists>err. WaitFailed err \<in> set rs)) \<and>
   (exit_by (count_loop role iterations 0 rs) = TargetReached) =
     (iterations \<le> final_count (count_loop role iterations 0 rs)) \<and>
   (exit_by (count_loop role iterations 0 rs) = WaitFailure \<longrightarrow>
      final_count (count_loop role iterations 0 rs) < iterations \<and>
      (\<exists>pre err. loop_calls (count_loop role iterations 0 rs) =
          pre @ [Sys_WaitForDebugEvent (WaitFailed err), Cerr (Msg_wait_failed role err)] \<and>
        (\<forall>e. Sys_WaitForDebugEvent (WaitFailed e) \<notin> set pre) \<and>
        Sys_WaitForDebugEvent_pending \<notin> set pre \<and>
        final_count (count_loop role iterations 0 rs) =
          int (length (filter is_comms_event (received_events pre)))))"
proof (intro conjI impI)
  show "(exit_by (count_loop role iterations 0 rs) \<noteq> StillWaiting) =
     (iterations \<le> int (length (filter is_comms_event (events_of rs))) \<or>
      (\<exists>err. WaitFailed err \<in> set rs))"
    using waiting_iff [of role iterations 0 rs] by auto
  show "(exit_by (count_loop role iterations 0 rs) = TargetReached) =
     (iterations \<le> final_count (count_loop role iterations 0 rs))"
    by (rule exit_reached_iff)
  assume f: "exit_by (count_loop role iterations 0 rs) = WaitFailure"
  then show "final_count (count_loop role iterations 0 rs) < iterations"
    using exit_reached_iff [of role iterations 0 rs] by simp
  from failure_shape [OF f] obtain pre err where
    pre: "loop_calls (count_loop role iterations 0 rs) =
          pre @ [Sys_WaitForDebugEvent (WaitFailed err), Cerr (Msg_wait_failed role err)]"
      "\<forall>e. Sys_WaitForDebugEvent (WaitFailed e) \<notin> set pre"
      "Sys_WaitForDebugEvent_pending \<notin> set pre"
    by blast
  have "received_events (pre @ ds) = received_events pre @ received_events ds" for ds
    by (induction pre rule: received_events.induct) simp_all
  then have "final_count (count_loop role iterations 0 rs) =
          int (length (filter is_comms_event (received_events pre)))"
    using final_count_received [of role iterations 0 rs] pre(1) by simp
  with pre show "\<exists>pre err. loop_calls (count_loop role iterations 0 rs) =
          pre @ [Sys_WaitForDebugEvent (WaitFailed err), Cerr (Msg_wait_failed role err)] \<and>
        (\<forall>e. Sys_WaitForDebugEvent (WaitFailed e) \<notin> set pre) \<and>
        Sys_WaitForDebugEvent_pending \<notin> set pre \<and>
        final_count (count_loop role iterations 0 rs) =
          int (length (filter is_comms_event (received_events pre)))"
    by blast
qed

theorem counter_loop_termination_witness:
  "exit_by (count_loop ''Client'' 3 0
      [WaitOk sample_thread_event, WaitOk sample_comms_event, WaitFailed 6]) = WaitFailure \<and>
   final_count (count_loop ''Client'' 3 0
      [WaitOk sample_thread_event, WaitOk sample_comms_event, WaitFailed 6]) = 1 \<and>
   final_count (count_loop ''Client'' 3 0
      [WaitOk sample_thread_event, WaitOk sample_comms_event, WaitFailed 6]) < 3"
proof -
  have f: "exit_by (count_loop ''Client'' 3 0
      [WaitOk sample_thread_event, WaitOk sample_comms_event, WaitFailed 6]) = WaitFailure"
    by (simp add: count_loop_unfold)
  have c: "final_count (count_loop ''Client'' 3 0
      [WaitOk sample_thread_event, WaitOk sample_comms_event, WaitFailed 6]) = 1"
    by (simp add: count_loop_unfold)
  show ?thesis
    using f c counter_loop_termination [of "''Client''" 3
        "[WaitOk sample_thread_event, WaitOk sample_comms_event, WaitFailed 6]"]
    by simp
qed

text \<open>
  C10. For a target that is not negative: the count is zero before any event; after
  each further answer of \<open>WaitForDebugEvent\<close> (the first \<open>k + 1\<close> answers against
  the first \<open>k\<close>) it has not decreased and has grown by at most one; it is never
  negative and never above the target; and when the loop is left on the target, not on a
  failed wait, the count equals the target.
\<close>

theorem count_invariant:
  assumes "0 \<le> iterations"
  shows "final_count (count_loop role iterations 0 []) = 0 \<and>
    (\<forall>k. final_count (count_loop role iterations 0 (take k rs)) \<le>
            final_count (count_loop role iterations 0 (take (Suc k) rs)) \<and>
          final_count (count_loop role iterations 0 (take (Suc k) rs)) \<le>
            final_count (count_loop role iterations 0 (take k rs)) + 1 \<and>
          0 \<le> final_count (count_loop role iterations 0 (take k rs)) \<and>
          final_count (count_loop role iterations 0 (take k rs)) \<le> iterations) \<and>
    (exit_by (count_loop role iterations 0 rs) = TargetReached \<longrightarrow>
       final_count (count_loop role iterations 0 rs) = iterations)"
proof (intro conjI allI impI)
  show "final_count (count_loop role iterations 0 []) = 0"
    by (cases "0 < iterations") (simp_all add: count_loop_unfold)
  show "0 \<le> final_count (count_loop role iterations 0 (take k rs))" for k
    by (rule final_count_ge)
  show "final_count (count_loop role iterations 0 (take k rs)) \<le> iterations" for k
    using assms by (rule final_count_le)
  show "final_count (count_loop role iterations 0 rs) = iterations"
    if "exit_by (count_loop role iterations 0 rs) = TargetReached"
    using that exit_reached_iff [of role iterations 0 rs]
      final_count_le [OF assms, of role rs] by simp
  have step: "final_count (count_loop role iterations 0 ps) \<le>
        final_count (count_loop role iterations 0 (ps @ [p])) \<and>
      final_count (count_loop role iterations 0 (ps @ [p])) \<le>
        final_count (count_loop role iterations 0 ps) + 1" for ps p
  proof (cases "exit_by (count_loop role iterations 0 ps) = StillWaiting")
    case False
    then show ?thesis by (simp add: count_loop_append_left)
  next
    case True
    let ?k = "final_count (count_loop role iterations 0 ps)"
    have "?k \<le> final_count (count_loop role iterations ?k [p]) \<and>
          final_count (count_loop role iterations ?k [p]) \<le> ?k + 1"
      by (cases rule: count_loop_cases [where c = ?k and n = iterations and rs = "[p]"];
          cases "?k + 1 < iterations") (simp_all add: count_loop_unfold)
    then show ?thesis by (simp add: count_loop_append_waiting [OF True])
  qed
  have both: "final_count (count_loop role iterations 0 (take k rs)) \<le>
            final_count (count_loop role iterations 0 (take (Suc k) rs)) \<and>
          final_count (count_loop role iterations 0 (take (Suc k) rs)) \<le>
            final_count (count_loop role iterations 0 (take k rs)) + 1" for k
  proof (cases "k < length rs")
    case True
    then show ?thesis using step [of "take k rs" "rs ! k"] by (simp add: take_Suc_conv_app_nth)
  next
    case False
    then show ?thesis by simp
  qed
  show "final_count (count_loop role iterations 0 (take k rs)) \<le>
            final_count (count_loop role iterations 0 (take (Suc k) rs))" for k
    using both [of k] by simp
  show "final_count (count_loop role iterations 0 (take (Suc k) rs)) \<le>
            final_count (count_loop role iterations 0 (take k rs)) + 1" for k
    using both [of k] by simp
qed

theorem count_invariant_witness:
  "(0::int) \<le> 2 \<and>
   final_count (count_loop ''Server'' 2 0 []) = 0 \<and>
   final_count (count_loop ''Server'' 2 0
     (take 1 [WaitOk sample_comms_event, WaitOk sample_thread_event,
              WaitOk sample_comms_event, WaitOk sample_comms_event])) \<le> 2 \<and>
   exit_by (count_loop ''Server'' 2 0
     [WaitOk sample_comms_event, WaitOk sample_thread_event,
      WaitOk sample_comms_event, WaitOk sample_comms_event]) = TargetReached \<and>
   final_count (count_loop ''Server'' 2 0
     [WaitOk sample_comms_event, WaitOk sample_thread_event,
      WaitOk sample_comms_event, WaitOk sample_comms_event]) = 2"
proof -
  have z: "(0::int) \<le> 2" by simp
  have t: "exit_by (count_loop ''Server'' 2 0
     [WaitOk sample_comms_event, WaitOk sample_thread_event,
      WaitOk sample_comms_event, WaitOk sample_comms_event]) = TargetReached"
    by (simp add: count_loop_unfold)
  note all = count_invariant [OF z, of "''Server''"
        "[WaitOk sample_comms_event, WaitOk sample_thread_event,
          WaitOk sample_comms_event, WaitOk sample_comms_event]"]
  from all have k: "final_count (count_loop ''Server'' 2 0
     (take 1 [WaitOk sample_comms_event, WaitOk sample_thread_event,
              WaitOk sample_comms_event, WaitOk sample_comms_event])) \<le> 2"
    by (elim conjE allE [where x = 1])
  from all t z k show ?thesis
    by (elim conjE) simp
qed

section \<open>The sender and the rounds: the calls they make\<close>

lemma SendMessageException_eq:
  "SendMessageException message =
     Returns () [Sys_RaiseException kExceptionCommsCode 0 2 [sv_data message, sv_size message + 1]]"
  by (simp add: SendMessageException_def RaiseException_def)

lemma takeWhile_before_nul:
  "CHR 0x00 \<notin> set xs \<Longrightarrow>
   takeWhile (\<lambda>c. c \<noteq> CHR 0x00) (xs @ ys) = xs @ takeWhile (\<lambda>c. c \<noteq> CHR 0x00) ys"
  by (induction xs) auto

lemma takeWhile_no_nul:
  "CHR 0x00 \<notin> set xs \<Longrightarrow> takeWhile (\<lambda>c. c \<noteq> CHR 0x00) xs = xs"
  by (induction xs) auto

lemma hello_world_view:
  "string_view_of literal ''hello, world!'' = \<lparr>sv_data = literal, sv_size = 13\<rparr>"
  by (simp add: string_view_of_def)

lemma send_loop_eq:
  "send_loop literal i =
     Returns ()
       (replicate (nat (kTestIterations - i))
          (Sys_RaiseException kExceptionCommsCode 0 2 [literal, 14]))"
proof (induction literal i rule: send_loop.induct)
  case (1 literal i)
  show ?case
  proof (cases "i < kTestIterations")
    case False
    then show ?thesis by (subst send_loop.simps) simp
  next
    case True
    then have n: "nat (kTestIterations - i) = Suc (nat (kTestIterations - (i + 1)))"
      by simp
    show ?thesis
      using True "1.IH" [OF True]
      by (subst send_loop.simps) (simp add: SendMessageException_eq hello_world_view n)
  qed
qed

lemma calls_of_after [simp]: "calls_of (after pre r) = pre @ calls_of r"
  by (cases r) simp_all

lemma calls_of_then_run:
  "calls_of (then_run r f) =
     calls_of r @ (case r of Returns a cs \<Rightarrow> calls_of (f a) | _ \<Rightarrow> [])"
  by (cases r) simp_all

lemma sender_round1:
  "RunSpeedTestRound env True partner_pid =
     Returns ()
       ([Sys_sleep_for 3, Cout Msg_round1_server_sends, Sys_clock_now] @
        replicate 10000 (Sys_RaiseException kExceptionCommsCode 0 2 [env_literal env, 14]) @
        [Sys_clock_now, Cout (Msg_server_sent 10000)])"
  by (simp add: RunSpeedTestRound_def send_loop_eq) (simp add: kTestIterations_def)

lemma sender_round2:
  "RunSwapRoleRound env False partner_pid =
     Returns ()
       ([Sys_sleep_for 3, Cout Msg_round2_client_sends, Sys_clock_now] @
        replicate 10000 (Sys_RaiseException kExceptionCommsCode 0 2 [env_literal env, 14]) @
        [Sys_clock_now, Cout (Msg_client_sent 10000)])"
  by (simp add: RunSwapRoleRound_def send_loop_eq) (simp add: kTestIterations_def)

lemma no_sleep_in_loop: "\<not> list_ex is_sleep (loop_calls (count_loop role n c rs))"
proof (induction rs arbitrary: c)
  case Nil
  then show ?case by (cases "c < n") (simp_all add: count_loop_unfold)
next
  case (Cons p ps)
  show ?case
  proof (cases rule: count_loop_cases [where c = c and n = n and rs = "p # ps"])
    case (event ev rs')
    then show ?thesis
      using Cons.IH [of "c + 1"] Cons.IH [of c] by (simp add: count_loop_unfold)
  qed (simp_all add: count_loop_unfold)
qed

lemma no_sleep_in_debug:
  "\<not> list_ex is_sleep (calls_of (DebugPartnerProcess env partner_pid role n))"
  using no_sleep_in_loop [of role n 0 "env_events env"]
  by (simp add: DebugPartnerProcess_def Let_def split: os_bool.splits loop_exit.splits)

lemma debug_starts_with_attach:
  "take 2 (calls_of (DebugPartnerProcess env partner_pid role n)) =
     [Cout (Msg_attaching role partner_pid), Sys_DebugActiveProcess partner_pid (env_attach env)]"
  by (simp add: DebugPartnerProcess_def)

lemma debug_attach_failed:
  "env_attach env = Failed err \<Longrightarrow>
   DebugPartnerProcess env partner_pid role n =
     Returns ()
       [Cout (Msg_attaching role partner_pid),
        Sys_DebugActiveProcess partner_pid (Failed err),
        Cerr (Msg_attach_failed role err)]"
  by (simp add: DebugPartnerProcess_def)

section \<open>One process: role, negotiation and \<open>main\<close>\<close>

lemma is_server_fresh: "env_create env = CreatedFresh \<Longrightarrow> env_map env = Succeeded \<Longrightarrow> is_server_of env"
  by (simp add: is_server_of_def GetLastError_at_156_def last_error_after_def
      last_error_of_create_def ERROR_SUCCESS_def ERROR_ALREADY_EXISTS_def)

lemma is_client_existing: "env_create env = OpenedExisting \<Longrightarrow> env_map env = Succeeded \<Longrightarrow> \<not> is_server_of env"
  by (simp add: is_server_of_def GetLastError_at_156_def last_error_after_def
      last_error_of_create_def)

lemma negotiate_finished: "finished pc \<Longrightarrow> negotiate my_pid mem k pc = (pc, [])"
  by (subst negotiate.simps) simp

lemma negotiate_step:
  "\<not> finished pc \<Longrightarrow> negotiate my_pid mem k pc =
     (fst (negotiate my_pid mem (Suc k) (fst (neg_step my_pid pc (mem k)))),
      snd (snd (neg_step my_pid pc (mem k))) @
      snd (negotiate my_pid mem (Suc k) (fst (neg_step my_pid pc (mem k)))))"
  by (subst negotiate.simps) (simp add: Let_def)

lemma negotiate_client:
  "negotiate my_pid mem k At_load_server_pid =
     (Joined (server_pid (mem k)),
      [Shm_load_server_pid (server_pid (mem k)), Shm_store_client_pid my_pid])"
  by (simp add: negotiate_step negotiate_finished Let_def)

lemma negotiate_load_partner:
  "negotiate my_pid mem k At_load_partner =
     (if client_pid (mem k) = 0 then No_client else Joined (client_pid (mem k)),
      [Shm_load_client_pid (client_pid (mem k))])"
  by (simp add: negotiate_step negotiate_finished Let_def)

lemma negotiate_poll_zero:
  "\<forall>j\<ge>k. client_pid (mem j) = 0 \<Longrightarrow>
   negotiate my_pid mem k (At_poll i) =
     (No_client,
      concat (replicate (nat (10 - i)) [Shm_load_client_pid 0, Sys_sleep_for 1]) @
      [Shm_load_client_pid 0])"
proof (induction "nat (10 - i)" arbitrary: i k)
  case 0
  then have "\<not> i < 10" by simp
  with 0 show ?case
    by (simp add: negotiate_step negotiate_load_partner)
next
  case (Suc n)
  then have lt: "i < 10" and n: "n = nat (10 - (i + 1))" by simp_all
  have z: "\<forall>j\<ge>Suc k. client_pid (mem j) = 0" using Suc.prems by simp
  have r: "nat (10 - i) = Suc (nat (10 - (i + 1)))" using lt by simp
  show ?case
    using lt Suc.prems Suc.hyps(1) [OF n z]
    by (simp add: negotiate_step r)
qed


lemma no_round_call_in_negotiate: "\<not> list_ex is_round_call (snd (negotiate my_pid mem k pc))"
proof (induction my_pid mem k pc rule: negotiate.induct)
  case (1 my_pid mem k pc)
  show ?case
  proof (cases "finished pc")
    case True
    then show ?thesis by (simp add: negotiate_finished)
  next
    case False
    have "\<not> list_ex is_round_call (snd (snd (neg_step my_pid pc (mem k))))"
      by (cases pc) (simp_all add: Let_def)
    then show ?thesis using False "1.IH" [OF False refl] by (simp add: negotiate_step)
  qed
qed




lemma after_after [simp]: "after xs (after ys r) = after (xs @ ys) r"
  by (cases r) simp_all

lemma run_rounds_server:
  "run_rounds env True partner_pid =
     after
       ([Sys_sleep_for 3, Cout Msg_round1_server_sends, Sys_clock_now] @
        replicate 10000 (Sys_RaiseException kExceptionCommsCode 0 2 [env_literal env, 14]) @
        [Sys_clock_now, Cout (Msg_server_sent 10000), Cout Msg_round2_server_debugs])
       (DebugPartnerProcess env partner_pid ''Server'' kTestIterations)"
  unfolding run_rounds_def sender_round1 by (simp add: RunSwapRoleRound_def)

lemma run_rounds_client:
  "run_rounds env False partner_pid =
     then_run
       (after [Cout Msg_round1_client_debugs]
          (DebugPartnerProcess env partner_pid ''Client'' kTestIterations))
       (\<lambda>_. Returns ()
          ([Sys_sleep_for 3, Cout Msg_round2_client_sends, Sys_clock_now] @
           replicate 10000 (Sys_RaiseException kExceptionCommsCode 0 2 [env_literal env, 14]) @
           [Sys_clock_now, Cout (Msg_client_sent 10000)]))"
  unfolding run_rounds_def sender_round2 by (simp add: RunSpeedTestRound_def)






lemma main_no_client:
  "1 < length argv \<Longrightarrow> argv ! 1 = ''speed'' \<Longrightarrow> \<forall>err. env_create env \<noteq> CreateFailed err \<Longrightarrow>
   env_map env = Succeeded \<Longrightarrow> fst (negotiated env) = No_client \<Longrightarrow>
   main argv env =
     Returns EXIT_FAILURE
       ([Sys_CreateFileMappingA (env_create env), Sys_MapViewOfFile Succeeded,
         Cout ((if is_server_of env then Msg_role_server else Msg_role_client) (env_pid env))] @
        snd (negotiated env) @
        [Cerr Msg_client_did_not_join, Sys_UnmapViewOfFile, Sys_CloseHandle])"
  by (cases "env_create env") (simp_all add: main_def)

lemma main_joined:
  "1 < length argv \<Longrightarrow> argv ! 1 = ''speed'' \<Longrightarrow> \<forall>err. env_create env \<noteq> CreateFailed err \<Longrightarrow>
   env_map env = Succeeded \<Longrightarrow> fst (negotiated env) = Joined partner_pid \<Longrightarrow>
   main argv env =
     after
       ([Sys_CreateFileMappingA (env_create env), Sys_MapViewOfFile Succeeded,
         Cout ((if is_server_of env then Msg_role_server else Msg_role_client) (env_pid env))] @
        snd (negotiated env) @ [Cout (Msg_connected partner_pid)])
       (then_run (run_rounds env (is_server_of env) partner_pid)
          (\<lambda>_. Returns EXIT_SUCCESS [Sys_UnmapViewOfFile, Sys_CloseHandle, Cout Msg_complete]))"
  by (cases "env_create env") (simp_all add: main_def Let_def)



lemma sample_env_fields [simp]:
  "env_create sample_env = OpenedExisting" "env_map sample_env = Succeeded"
  "env_pid sample_env = 5678" "env_shared sample_env k = \<lparr>server_pid = 1234, client_pid = 0\<rparr>"
  "env_literal sample_env = 4096" "env_attach sample_env = Succeeded"
  "env_events sample_env = []" "env_detach sample_env = Succeeded"
  by (simp_all add: sample_env_def)

lemma sample_negotiated:
  "negotiated sample_env =
     (Joined 1234, [Shm_load_server_pid 1234, Shm_store_client_pid 5678])"
  "negotiated (sample_env\<lparr>env_attach := Failed 5\<rparr>) =
     (Joined 1234, [Shm_load_server_pid 1234, Shm_store_client_pid 5678])"
  by (simp_all add: negotiated_def is_client_existing entry_pc_def negotiate_client)

section \<open>Two processes: invariants of the negotiation\<close>

lemma start_roles:
  "first_pc (start_negotiation initial) = At_store_server_pid"
  "second_pc (start_negotiation initial) = At_load_server_pid"
  "mapping (start_negotiation initial) = initial"
  by (simp_all add: start_negotiation_def entry_pc_def GetLastError_at_156_def
      last_error_after_def last_error_of_create_def ERROR_SUCCESS_def ERROR_ALREADY_EXISTS_def)

lemma any_order_step:
  "any_order_inv second_pid s \<Longrightarrow> any_order_inv second_pid (step_of first_pid second_pid b s)"
  by (cases b; cases "first_pc s"; cases "second_pc s")
    (auto simp: any_order_inv_def step_of_def Let_def)

lemma in_order_step:
  "in_order_inv first_pid second_pid s \<Longrightarrow>
   in_order_inv first_pid second_pid (step_of first_pid second_pid b s)"
  by (cases b; cases "first_pc s"; cases "second_pc s")
    (auto simp: in_order_inv_def step_of_def Let_def)

lemma any_order_run:
  "any_order_inv second_pid s \<Longrightarrow>
   any_order_inv second_pid (run_schedule first_pid second_pid sched s)"
  by (induction sched arbitrary: s) (simp_all add: any_order_step)

lemma in_order_run:
  "in_order_inv first_pid second_pid s \<Longrightarrow>
   in_order_inv first_pid second_pid (run_schedule first_pid second_pid sched s)"
  by (induction sched arbitrary: s) (simp_all add: in_order_step)

lemma any_order_start: "any_order_inv second_pid (start_negotiation initial)"
  by (simp add: any_order_inv_def start_roles)

lemma in_order_start:
  "in_order_inv first_pid second_pid
     (step_of first_pid second_pid True (start_negotiation initial))"
  by (simp add: in_order_inv_def step_of_def start_roles)

section \<open>Claims about the Exception Sender and the rounds\<close>

text \<open>
  C4. For every message, \<open>SendMessageException\<close> calls \<open>RaiseException\<close> once,
  with the code \<open>0x1337\<close>, no flags and exactly two parameters: the address of the
  payload and its size plus one; the function returns normally, nothing is passed on to
  the caller. It is the filter of the function that stops the exception: under a filter
  that continues the search, the same block is left by the exception with these two
  parameters. For a view of a string literal the first parameter is the literal's
  address and the second the length of the literal with its terminator: the length of
  the whole literal plus one when no NUL is written in it, and the length up to the first
  NUL plus one otherwise.
\<close>
theorem sender_raises_two_parameters_and_returns:
  "SendMessageException message =
     Returns () [Sys_RaiseException 0x1337 0 2 [sv_data message, sv_size message + 1]] \<and>
   try_except (RaiseException 0x1337 0 2 [sv_data message, sv_size message + 1])
       (\<lambda>_. EXCEPTION_CONTINUE_SEARCH) (Returns () []) =
     Unwinds
       \<lparr>ExceptionCode = 0x1337, ExceptionFlags = 0, NumberParameters = 2,
        ExceptionInformation = [sv_data message, sv_size message + 1]\<rparr>
       [Sys_RaiseException 0x1337 0 2 [sv_data message, sv_size message + 1]] \<and>
   sv_data (string_view_of address literal) = address \<and>
   (CHR 0x00 \<notin> set literal \<longrightarrow>
      sv_size (string_view_of address literal) + 1 = of_nat (length literal + 1)) \<and>
   (CHR 0x00 \<notin> set literal \<and> length literal + 1 < 2 ^ 64 \<longrightarrow>
      unat (sv_size (string_view_of address literal) + 1) = length literal + 1) \<and>
   (CHR 0x00 \<notin> set literal \<longrightarrow>
      sv_size (string_view_of address (literal @ CHR 0x00 # rest)) + 1 =
        of_nat (length literal + 1))"
proof (intro conjI impI)
  show "SendMessageException message =
     Returns () [Sys_RaiseException 0x1337 0 2 [sv_data message, sv_size message + 1]]"
    by (simp add: SendMessageException_eq kExceptionCommsCode_def)
  show "try_except (RaiseException 0x1337 0 2 [sv_data message, sv_size message + 1])
       (\<lambda>_. EXCEPTION_CONTINUE_SEARCH) (Returns () []) =
     Unwinds
       \<lparr>ExceptionCode = 0x1337, ExceptionFlags = 0, NumberParameters = 2,
        ExceptionInformation = [sv_data message, sv_size message + 1]\<rparr>
       [Sys_RaiseException 0x1337 0 2 [sv_data message, sv_size message + 1]]"
    by (simp add: RaiseException_def)
  show "sv_data (string_view_of address literal) = address"
    by (simp add: string_view_of_def)
  show "sv_size (string_view_of address literal) + 1 = of_nat (length literal + 1)"
    if "CHR 0x00 \<notin> set literal"
    using that by (simp add: string_view_of_def takeWhile_no_nul)
  show "sv_size (string_view_of address (literal @ CHR 0x00 # rest)) + 1 =
        of_nat (length literal + 1)"
    if "CHR 0x00 \<notin> set literal"
    using that by (simp add: string_view_of_def takeWhile_before_nul)
  assume n: "CHR 0x00 \<notin> set literal \<and> length literal + 1 < 2 ^ 64"
  then have u: "unat (of_nat (length literal + 1) :: 64 word) = length literal + 1"
    by (intro of_nat_inverse [OF refl]) simp
  have eq: "sv_size (string_view_of address literal) + 1 = of_nat (length literal + 1)"
    using n by (simp add: string_view_of_def takeWhile_no_nul)
  show "unat (sv_size (string_view_of address literal) + 1) = length literal + 1"
    unfolding eq by (rule u)
qed

theorem sender_witness:
  "SendMessageException (string_view_of 4096 ''hello, world!'') =
     Returns () [Sys_RaiseException 0x1337 0 2 [4096, 14]] \<and>
   CHR 0x00 \<notin> set ''hello, world!'' \<and>
   length ''hello, world!'' + 1 < (2::nat) ^ 64 \<and>
   unat (sv_size (string_view_of 4096 ''hello, world!'') + 1) = 14 \<and>
   CHR 0x00 \<notin> set ''ab'' \<and>
   sv_size (string_view_of 4096 (''ab'' @ CHR 0x00 # ''cd'')) + 1 = 3"
proof -
  have z: "CHR 0x00 \<notin> set ''hello, world!''" "CHR 0x00 \<notin> set ''ab''"
    by simp_all
  have b: "length ''hello, world!'' + 1 < (2::nat) ^ 64"
    by simp
  show ?thesis
    using z b
      sender_raises_two_parameters_and_returns
        [where message = "string_view_of 4096 ''hello, world!''" and address = 4096
           and literal = "''hello, world!''" and rest = "[]"]
      sender_raises_two_parameters_and_returns
        [where message = "string_view_of 4096 ''hello, world!''" and address = 4096
           and literal = "''ab''" and rest = "''cd''"]
    by simp
qed

text \<open>
  C6. In round 1 the server (\<open>is_server\<close> true) sleeps 3 seconds and then raises the
  10000 exceptions, and the client debugs the partner; in round 2 the server debugs and
  the client sleeps 3 seconds and raises. The debugging side starts with its line of
  output and \<open>DebugActiveProcess\<close> and never sleeps. The calls of the two rounds are
  those of round 1 followed, only if round 1 returns, by those of round 2; \<open>main\<close>
  runs them with the role line 156 gave the process.
\<close>
theorem rounds_swap_roles:
  "RunSpeedTestRound env True partner_pid =
     Returns ()
       ([Sys_sleep_for 3, Cout Msg_round1_server_sends, Sys_clock_now] @
        replicate 10000 (Sys_RaiseException 0x1337 0 2 [env_literal env, 14]) @
        [Sys_clock_now, Cout (Msg_server_sent 10000)]) \<and>
   RunSpeedTestRound env False partner_pid =
     after [Cout Msg_round1_client_debugs]
       (DebugPartnerProcess env partner_pid ''Client'' 10000) \<and>
   RunSwapRoleRound env True partner_pid =
     after [Cout Msg_round2_server_debugs]
       (DebugPartnerProcess env partner_pid ''Server'' 10000) \<and>
   RunSwapRoleRound env False partner_pid =
     Returns ()
       ([Sys_sleep_for 3, Cout Msg_round2_client_sends, Sys_clock_now] @
        replicate 10000 (Sys_RaiseException 0x1337 0 2 [env_literal env, 14]) @
        [Sys_clock_now, Cout (Msg_client_sent 10000)]) \<and>
   take 2 (calls_of (DebugPartnerProcess env partner_pid role iterations)) =
     [Cout (Msg_attaching role partner_pid),
      Sys_DebugActiveProcess partner_pid (env_attach env)] \<and>
   \<not> list_ex is_sleep (calls_of (DebugPartnerProcess env partner_pid role iterations)) \<and>
   calls_of (run_rounds env is_server partner_pid) =
     calls_of (RunSpeedTestRound env is_server partner_pid) @
     (case RunSpeedTestRound env is_server partner_pid of
        Returns u cs \<Rightarrow> calls_of (RunSwapRoleRound env is_server partner_pid)
      | _ \<Rightarrow> []) \<and>
   (1 < length argv \<and> argv ! 1 = ''speed'' \<and> (\<forall>e. env_create env \<noteq> CreateFailed e) \<and>
    env_map env = Succeeded \<and> fst (negotiated env) = Joined partner_pid \<longrightarrow>
    main argv env =
      after
        ([Sys_CreateFileMappingA (env_create env), Sys_MapViewOfFile Succeeded,
          Cout ((if is_server_of env then Msg_role_server else Msg_role_client) (env_pid env))] @
         snd (negotiated env) @ [Cout (Msg_connected partner_pid)])
        (then_run (run_rounds env (is_server_of env) partner_pid)
           (\<lambda>_. Returns EXIT_SUCCESS
              [Sys_UnmapViewOfFile, Sys_CloseHandle, Cout Msg_complete])))"
proof (intro conjI impI)
  show "RunSpeedTestRound env True partner_pid =
     Returns ()
       ([Sys_sleep_for 3, Cout Msg_round1_server_sends, Sys_clock_now] @
        replicate 10000 (Sys_RaiseException 0x1337 0 2 [env_literal env, 14]) @
        [Sys_clock_now, Cout (Msg_server_sent 10000)])"
    unfolding sender_round1 by (simp add: kExceptionCommsCode_def)
  show "RunSwapRoleRound env False partner_pid =
     Returns ()
       ([Sys_sleep_for 3, Cout Msg_round2_client_sends, Sys_clock_now] @
        replicate 10000 (Sys_RaiseException 0x1337 0 2 [env_literal env, 14]) @
        [Sys_clock_now, Cout (Msg_client_sent 10000)])"
    unfolding sender_round2 by (simp add: kExceptionCommsCode_def)
  show "RunSpeedTestRound env False partner_pid =
     after [Cout Msg_round1_client_debugs]
       (DebugPartnerProcess env partner_pid ''Client'' 10000)"
    by (simp add: RunSpeedTestRound_def kTestIterations_def)
  show "RunSwapRoleRound env True partner_pid =
     after [Cout Msg_round2_server_debugs]
       (DebugPartnerProcess env partner_pid ''Server'' 10000)"
    by (simp add: RunSwapRoleRound_def kTestIterations_def)
  show "take 2 (calls_of (DebugPartnerProcess env partner_pid role iterations)) =
     [Cout (Msg_attaching role partner_pid),
      Sys_DebugActiveProcess partner_pid (env_attach env)]"
    by (rule debug_starts_with_attach)
  show "\<not> list_ex is_sleep (calls_of (DebugPartnerProcess env partner_pid role iterations))"
    by (rule no_sleep_in_debug)
  show "calls_of (run_rounds env is_server partner_pid) =
     calls_of (RunSpeedTestRound env is_server partner_pid) @
     (case RunSpeedTestRound env is_server partner_pid of
        Returns u cs \<Rightarrow> calls_of (RunSwapRoleRound env is_server partner_pid)
      | _ \<Rightarrow> [])"
    unfolding run_rounds_def by (rule calls_of_then_run)
  assume "1 < length argv \<and> argv ! 1 = ''speed'' \<and> (\<forall>e. env_create env \<noteq> CreateFailed e) \<and>
    env_map env = Succeeded \<and> fst (negotiated env) = Joined partner_pid"
  then show "main argv env =
      after
        ([Sys_CreateFileMappingA (env_create env), Sys_MapViewOfFile Succeeded,
          Cout ((if is_server_of env then Msg_role_server else Msg_role_client) (env_pid env))] @
         snd (negotiated env) @ [Cout (Msg_connected partner_pid)])
        (then_run (run_rounds env (is_server_of env) partner_pid)
           (\<lambda>_. Returns EXIT_SUCCESS
              [Sys_UnmapViewOfFile, Sys_CloseHandle, Cout Msg_complete]))"
    by (intro main_joined) simp_all
qed

theorem rounds_swap_roles_witness:
  "calls_of (run_rounds sample_env False 1234) =
     [Cout Msg_round1_client_debugs, Cout (Msg_attaching ''Client'' 1234),
      Sys_DebugActiveProcess 1234 Succeeded, Sys_WaitForDebugEvent_pending] \<and>
   main [''ExceptionCommsSpeedTest.exe'', ''speed''] sample_env =
     Hangs
       [Sys_CreateFileMappingA OpenedExisting, Sys_MapViewOfFile Succeeded,
        Cout (Msg_role_client 5678), Shm_load_server_pid 1234, Shm_store_client_pid 5678,
        Cout (Msg_connected 1234), Cout Msg_round1_client_debugs,
        Cout (Msg_attaching ''Client'' 1234), Sys_DebugActiveProcess 1234 Succeeded,
        Sys_WaitForDebugEvent_pending]"
proof -
  have d: "DebugPartnerProcess sample_env 1234 ''Client'' 10000 =
      Hangs [Cout (Msg_attaching ''Client'' 1234), Sys_DebugActiveProcess 1234 Succeeded,
             Sys_WaitForDebugEvent_pending]"
    by (simp add: DebugPartnerProcess_def sample_env_def count_loop_unfold)
  have s: "(1::nat) < length [''ExceptionCommsSpeedTest.exe'', ''speed''] \<and>
      [''ExceptionCommsSpeedTest.exe'', ''speed''] ! 1 = ''speed'' \<and>
      (\<forall>e. env_create sample_env \<noteq> CreateFailed e) \<and>
      env_map sample_env = Succeeded \<and>
      fst (negotiated sample_env) = Joined 1234"
    by (simp add: sample_negotiated)
  have c: "\<not> is_server_of sample_env"
    by (rule is_client_existing) (simp_all add: sample_env_def)
  have p: "env_pid sample_env = 5678" "env_create sample_env = OpenedExisting"
    by (simp_all add: sample_env_def)
  note all = rounds_swap_roles [of sample_env 1234 "''Client''" 10000 False
      "[''ExceptionCommsSpeedTest.exe'', ''speed'']"]
  from all have r1: "RunSpeedTestRound sample_env False 1234 =
     after [Cout Msg_round1_client_debugs]
       (DebugPartnerProcess sample_env 1234 ''Client'' 10000)"
    by (elim conjE)
  from all s have m: "main [''ExceptionCommsSpeedTest.exe'', ''speed''] sample_env =
      after
        ([Sys_CreateFileMappingA (env_create sample_env), Sys_MapViewOfFile Succeeded,
          Cout ((if is_server_of sample_env then Msg_role_server else Msg_role_client)
            (env_pid sample_env))] @
         snd (negotiated sample_env) @ [Cout (Msg_connected 1234)])
        (then_run (run_rounds sample_env (is_server_of sample_env) 1234)
           (\<lambda>_. Returns EXIT_SUCCESS
              [Sys_UnmapViewOfFile, Sys_CloseHandle, Cout Msg_complete]))"
    by (elim conjE impE) simp_all
  have h: "run_rounds sample_env False 1234 =
      Hangs [Cout Msg_round1_client_debugs, Cout (Msg_attaching ''Client'' 1234),
             Sys_DebugActiveProcess 1234 Succeeded, Sys_WaitForDebugEvent_pending]"
    by (simp add: run_rounds_def r1 d)
  show ?thesis
    unfolding m by (simp add: h c p sample_negotiated)
qed

text \<open>
  C9. When \<open>DebugActiveProcess\<close> fails, \<open>DebugPartnerProcess\<close> prints the error
  code on standard error and returns: it makes no call of \<open>WaitForDebugEvent\<close>, so
  no event is received or counted, and it neither hangs nor lets an exception pass. The
  program goes on: as client, round 2 (the send loop) follows the failed round 1; as
  server, the failed round 2 follows round 1; and \<open>main\<close> then releases the mapping,
  prints its last line and returns \<open>EXIT_SUCCESS\<close>.
\<close>
theorem attach_failure_is_reported_not_fatal:
  assumes "env_attach env = Failed err"
  shows "DebugPartnerProcess env partner_pid role iterations =
       Returns ()
         [Cout (Msg_attaching role partner_pid),
          Sys_DebugActiveProcess partner_pid (Failed err),
          Cerr (Msg_attach_failed role err)] \<and>
     received_events (calls_of (DebugPartnerProcess env partner_pid role iterations)) = [] \<and>
     run_rounds env False partner_pid =
       Returns ()
         ([Cout Msg_round1_client_debugs,
           Cout (Msg_attaching ''Client'' partner_pid),
           Sys_DebugActiveProcess partner_pid (Failed err),
           Cerr (Msg_attach_failed ''Client'' err)] @
          calls_of (RunSwapRoleRound env False partner_pid)) \<and>
     run_rounds env True partner_pid =
       Returns ()
         (calls_of (RunSpeedTestRound env True partner_pid) @
          [Cout Msg_round2_server_debugs,
           Cout (Msg_attaching ''Server'' partner_pid),
           Sys_DebugActiveProcess partner_pid (Failed err),
           Cerr (Msg_attach_failed ''Server'' err)]) \<and>
     (1 < length argv \<and> argv ! 1 = ''speed'' \<and> (\<forall>e. env_create env \<noteq> CreateFailed e) \<and>
      env_map env = Succeeded \<and> fst (negotiated env) = Joined partner_pid \<longrightarrow>
      (\<exists>cs. main argv env =
         Returns EXIT_SUCCESS (cs @ [Sys_UnmapViewOfFile, Sys_CloseHandle, Cout Msg_complete])))"
proof (intro conjI impI)
  note d = debug_attach_failed [OF assms]
  show "DebugPartnerProcess env partner_pid role iterations =
       Returns ()
         [Cout (Msg_attaching role partner_pid),
          Sys_DebugActiveProcess partner_pid (Failed err),
          Cerr (Msg_attach_failed role err)]"
    by (rule d)
  show "received_events (calls_of (DebugPartnerProcess env partner_pid role iterations)) = []"
    by (simp add: d)
  show c: "run_rounds env False partner_pid =
       Returns ()
         ([Cout Msg_round1_client_debugs,
           Cout (Msg_attaching ''Client'' partner_pid),
           Sys_DebugActiveProcess partner_pid (Failed err),
           Cerr (Msg_attach_failed ''Client'' err)] @
          calls_of (RunSwapRoleRound env False partner_pid))"
    by (simp add: run_rounds_client d sender_round2)
  show s: "run_rounds env True partner_pid =
       Returns ()
         (calls_of (RunSpeedTestRound env True partner_pid) @
          [Cout Msg_round2_server_debugs,
           Cout (Msg_attaching ''Server'' partner_pid),
           Sys_DebugActiveProcess partner_pid (Failed err),
           Cerr (Msg_attach_failed ''Server'' err)])"
    by (simp add: run_rounds_server d sender_round1)
  assume a: "1 < length argv \<and> argv ! 1 = ''speed'' \<and> (\<forall>e. env_create env \<noteq> CreateFailed e) \<and>
      env_map env = Succeeded \<and> fst (negotiated env) = Joined partner_pid"
  then have m: "main argv env =
     after
       ([Sys_CreateFileMappingA (env_create env), Sys_MapViewOfFile Succeeded,
         Cout ((if is_server_of env then Msg_role_server else Msg_role_client) (env_pid env))] @
        snd (negotiated env) @ [Cout (Msg_connected partner_pid)])
       (then_run (run_rounds env (is_server_of env) partner_pid)
          (\<lambda>_. Returns EXIT_SUCCESS [Sys_UnmapViewOfFile, Sys_CloseHandle, Cout Msg_complete]))"
    by (intro main_joined) simp_all
  show "\<exists>cs. main argv env =
         Returns EXIT_SUCCESS (cs @ [Sys_UnmapViewOfFile, Sys_CloseHandle, Cout Msg_complete])"
  proof (cases "is_server_of env")
    case True
    show ?thesis unfolding m using True s by (simp del: append_Cons)
  next
    case False
    show ?thesis unfolding m using False c by (simp del: append_Cons)
  qed
qed

theorem attach_failure_witness:
  "env_attach (sample_env\<lparr>env_attach := Failed 5\<rparr>) = Failed 5 \<and>
   DebugPartnerProcess (sample_env\<lparr>env_attach := Failed 5\<rparr>) 1234 ''Client'' 10000 =
     Returns ()
       [Cout (Msg_attaching ''Client'' 1234), Sys_DebugActiveProcess 1234 (Failed 5),
        Cerr (Msg_attach_failed ''Client'' 5)] \<and>
   (\<exists>cs. main [''ExceptionCommsSpeedTest.exe'', ''speed''] (sample_env\<lparr>env_attach := Failed 5\<rparr>) =
      Returns EXIT_SUCCESS (cs @ [Sys_UnmapViewOfFile, Sys_CloseHandle, Cout Msg_complete]))"
proof -
  have h: "env_attach (sample_env\<lparr>env_attach := Failed 5\<rparr>) = Failed 5"
    by simp
  have s: "(1::nat) < length [''ExceptionCommsSpeedTest.exe'', ''speed''] \<and>
      [''ExceptionCommsSpeedTest.exe'', ''speed''] ! 1 = ''speed'' \<and>
      (\<forall>e. env_create (sample_env\<lparr>env_attach := Failed 5\<rparr>) \<noteq> CreateFailed e) \<and>
      env_map (sample_env\<lparr>env_attach := Failed 5\<rparr>) = Succeeded \<and>
      fst (negotiated (sample_env\<lparr>env_attach := Failed 5\<rparr>)) = Joined 1234"
    by (simp add: sample_negotiated)
  show ?thesis
    using h s attach_failure_is_reported_not_fatal
      [OF h, of 1234 "''Client''" 10000 "[''ExceptionCommsSpeedTest.exe'', ''speed'']"]
    by simp
qed

section \<open>Claims about \<open>main\<close> and the negotiation\<close>

lemma negotiated_server_no_client:
  assumes "is_server_of env" and "\<forall>k\<ge>2. client_pid (env_shared env k) = 0"
  shows "negotiated env =
     (No_client,
      [Shm_store_server_pid (env_pid env), Shm_store_client_pid 0] @
      concat (replicate 10 [Shm_load_client_pid 0, Sys_sleep_for 1]) @
      [Shm_load_client_pid 0])"
proof -
  have "\<forall>j\<ge>Suc (Suc 0). client_pid (env_shared env j) = 0"
    using assms(2) by (simp add: numeral_2_eq_2)
  from negotiate_poll_zero [OF this, of "env_pid env" 0]
  show ?thesis
    using assms(1) by (simp add: negotiated_def entry_pc_def negotiate_step)
qed

text \<open>
  C7. A process started with \<open>speed\<close> whose setup succeeded and that is the server,
  and that reads zero from \<open>client_pid\<close> at every step after its two stores, polls
  ten times with a sleep of one second after each, reads the field once more, prints
  that the client did not join, releases the mapping and returns \<open>EXIT_FAILURE\<close>;
  none of its calls belongs to a round.
\<close>
theorem server_gives_up_without_client:
  assumes "1 < length argv" and "argv ! 1 = ''speed''"
    and "\<forall>e. env_create env \<noteq> CreateFailed e" and "env_map env = Succeeded"
    and "is_server_of env"
    and "\<forall>k\<ge>2. client_pid (env_shared env k) = 0"
  shows "main argv env =
      Returns EXIT_FAILURE
        ([Sys_CreateFileMappingA (env_create env), Sys_MapViewOfFile Succeeded,
          Cout (Msg_role_server (env_pid env)),
          Shm_store_server_pid (env_pid env), Shm_store_client_pid 0] @
         concat (replicate 10 [Shm_load_client_pid 0, Sys_sleep_for 1]) @
         [Shm_load_client_pid 0,
          Cerr Msg_client_did_not_join, Sys_UnmapViewOfFile, Sys_CloseHandle]) \<and>
    \<not> list_ex is_round_call (calls_of (main argv env))"
proof -
  note n = negotiated_server_no_client [OF assms(5,6)]
  have m: "main argv env =
      Returns EXIT_FAILURE
        ([Sys_CreateFileMappingA (env_create env), Sys_MapViewOfFile Succeeded,
          Cout (Msg_role_server (env_pid env)),
          Shm_store_server_pid (env_pid env), Shm_store_client_pid 0] @
         concat (replicate 10 [Shm_load_client_pid 0, Sys_sleep_for 1]) @
         [Shm_load_client_pid 0,
          Cerr Msg_client_did_not_join, Sys_UnmapViewOfFile, Sys_CloseHandle])"
    using main_no_client [OF assms(1-4)] assms(5) by (simp add: n)
  have "\<not> list_ex is_round_call (concat (replicate k [Shm_load_client_pid 0, Sys_sleep_for 1]))"
    for k
    by (induction k) simp_all
  then have "\<not> list_ex is_round_call (calls_of (main argv env))"
    unfolding m by simp
  with m show ?thesis by simp
qed

theorem server_gives_up_witness:
  "main [''ExceptionCommsSpeedTest.exe'', ''speed''] (sample_env\<lparr>env_create := CreatedFresh\<rparr>) =
      Returns EXIT_FAILURE
        ([Sys_CreateFileMappingA CreatedFresh, Sys_MapViewOfFile Succeeded,
          Cout (Msg_role_server 5678),
          Shm_store_server_pid 5678, Shm_store_client_pid 0] @
         concat (replicate 10 [Shm_load_client_pid 0, Sys_sleep_for 1]) @
         [Shm_load_client_pid 0,
          Cerr Msg_client_did_not_join, Sys_UnmapViewOfFile, Sys_CloseHandle])"
proof -
  let ?env = "sample_env\<lparr>env_create := CreatedFresh\<rparr>"
  have a: "(1::nat) < length [''ExceptionCommsSpeedTest.exe'', ''speed'']"
    "[''ExceptionCommsSpeedTest.exe'', ''speed''] ! 1 = ''speed''"
    by simp_all
  have b: "\<forall>e. env_create ?env \<noteq> CreateFailed e" "env_map ?env = Succeeded"
    by (simp_all add: sample_env_def)
  have c: "is_server_of ?env"
    by (rule is_server_fresh) (simp_all add: sample_env_def)
  have d: "\<forall>k\<ge>2. client_pid (env_shared ?env k) = 0"
    by (simp add: sample_env_def)
  have e: "env_pid ?env = 5678" "env_create ?env = CreatedFresh"
    by (simp_all add: sample_env_def)
  show ?thesis
    using server_gives_up_without_client [OF a b c d] by (simp add: e)
qed




text \<open>
  C3 (amended). The process that created the mapping is the server by line 156 and
  enters the server branch, the one that opened it is the client and enters the client
  branch. The server's first two steps store its pid in
  \<open>server_pid\<close> and zero in \<open>client_pid\<close>; the client reads \<open>server_pid\<close> as
  its partner and stores its pid in \<open>client_pid\<close>. In every interleaving, a partner
  the server ends with is the client's pid, and \<open>client_pid\<close> then holds it. In every
  interleaving in which the server's store to \<open>server_pid\<close> comes before the first
  step of the client (its read of \<open>server_pid\<close>), a partner the client ends with is the
  server's pid, whether or not the server ends with a partner, and \<open>server_pid\<close>
  holds the server's pid; so when both end with a partner each has the other's pid.
\<close>
theorem negotiation_roles_and_partners:
  "(env_create env = CreatedFresh \<and> env_map env = Succeeded \<longrightarrow> is_server_of env) \<and>
   (env_create env = OpenedExisting \<and> env_map env = Succeeded \<longrightarrow> \<not> is_server_of env) \<and>
   first_pc (start_negotiation initial) = At_store_server_pid \<and>
   second_pc (start_negotiation initial) = At_load_server_pid \<and>
   mapping (run_schedule first_pid second_pid [True] (start_negotiation initial)) =
     initial\<lparr>server_pid := first_pid\<rparr> \<and>
   mapping (run_schedule first_pid second_pid [True, True] (start_negotiation initial)) =
     initial\<lparr>server_pid := first_pid, client_pid := 0\<rparr> \<and>
   neg_step second_pid At_load_server_pid shared =
     (At_store_own_pid (server_pid shared), shared, [Shm_load_server_pid (server_pid shared)]) \<and>
   neg_step second_pid (At_store_own_pid partner_pid) shared =
     (Joined partner_pid, shared\<lparr>client_pid := second_pid\<rparr>, [Shm_store_client_pid second_pid]) \<and>
   (first_pc (run_schedule first_pid second_pid sched (start_negotiation initial)) = Joined a
      \<longrightarrow>
    a = second_pid \<and>
    client_pid (mapping (run_schedule first_pid second_pid sched (start_negotiation initial))) =
      second_pid) \<and>
   (second_pc (run_schedule first_pid second_pid (True # sched) (start_negotiation initial)) =
      Joined b \<longrightarrow> b = first_pid) \<and>
   server_pid (mapping (run_schedule first_pid second_pid (True # sched)
     (start_negotiation initial))) = first_pid \<and>
   (first_pc (run_schedule first_pid second_pid (True # sched) (start_negotiation initial)) =
      Joined a \<and>
    second_pc (run_schedule first_pid second_pid (True # sched) (start_negotiation initial)) =
      Joined b \<longrightarrow>
    a = second_pid \<and> b = first_pid \<and>
    server_pid (mapping (run_schedule first_pid second_pid (True # sched)
      (start_negotiation initial))) = first_pid \<and>
    client_pid (mapping (run_schedule first_pid second_pid (True # sched)
      (start_negotiation initial))) = second_pid)"
proof (intro conjI impI)
  show "is_server_of env" if "env_create env = CreatedFresh \<and> env_map env = Succeeded"
    using that by (simp add: is_server_fresh)
  show "\<not> is_server_of env" if "env_create env = OpenedExisting \<and> env_map env = Succeeded"
    using that by (simp add: is_client_existing)
  show "first_pc (start_negotiation initial) = At_store_server_pid"
    and "second_pc (start_negotiation initial) = At_load_server_pid"
    by (simp_all add: start_roles)
  show "mapping (run_schedule first_pid second_pid [True] (start_negotiation initial)) =
     initial\<lparr>server_pid := first_pid\<rparr>"
    by (simp add: step_of_def start_roles)
  show "mapping (run_schedule first_pid second_pid [True, True] (start_negotiation initial)) =
     initial\<lparr>server_pid := first_pid, client_pid := 0\<rparr>"
    by (simp add: step_of_def start_roles)
  show "neg_step second_pid At_load_server_pid shared =
     (At_store_own_pid (server_pid shared), shared, [Shm_load_server_pid (server_pid shared)])"
    by (simp add: Let_def)
  show "neg_step second_pid (At_store_own_pid partner_pid) shared =
     (Joined partner_pid, shared\<lparr>client_pid := second_pid\<rparr>, [Shm_store_client_pid second_pid])"
    by simp
  have any: "any_order_inv second_pid
      (run_schedule first_pid second_pid sched (start_negotiation initial))"
    by (rule any_order_run) (rule any_order_start)
  show "a = second_pid"
    if "first_pc (run_schedule first_pid second_pid sched (start_negotiation initial)) = Joined a"
    using that any by (simp add: any_order_inv_def)
  show "client_pid (mapping (run_schedule first_pid second_pid sched
      (start_negotiation initial))) = second_pid"
    if "first_pc (run_schedule first_pid second_pid sched (start_negotiation initial)) = Joined a"
    using that any by (simp add: any_order_inv_def)
  have "in_order_inv first_pid second_pid
      (run_schedule first_pid second_pid sched
        (step_of first_pid second_pid True (start_negotiation initial)))"
    by (rule in_order_run) (rule in_order_start)
  then have ordered: "in_order_inv first_pid second_pid
      (run_schedule first_pid second_pid (True # sched) (start_negotiation initial))"
    by simp
  show "b = first_pid"
    if "second_pc (run_schedule first_pid second_pid (True # sched)
      (start_negotiation initial)) = Joined b"
    using that ordered by (simp add: in_order_inv_def)
  show "server_pid (mapping (run_schedule first_pid second_pid (True # sched)
     (start_negotiation initial))) = first_pid"
    using ordered by (simp add: in_order_inv_def)
  assume both: "first_pc (run_schedule first_pid second_pid (True # sched)
        (start_negotiation initial)) = Joined a \<and>
    second_pc (run_schedule first_pid second_pid (True # sched) (start_negotiation initial)) =
      Joined b"
  let ?s = "run_schedule first_pid second_pid (True # sched) (start_negotiation initial)"
  have "in_order_inv first_pid second_pid
      (run_schedule first_pid second_pid sched
        (step_of first_pid second_pid True (start_negotiation initial)))"
    by (rule in_order_run) (rule in_order_start)
  then have "in_order_inv first_pid second_pid ?s"
    by simp
  with both have "a = second_pid \<and> b = first_pid \<and> server_pid (mapping ?s) = first_pid \<and>
      client_pid (mapping ?s) = second_pid"
    by (simp add: in_order_inv_def)
  then show "a = second_pid" and "b = first_pid" and "server_pid (mapping ?s) = first_pid"
    and "client_pid (mapping ?s) = second_pid"
    by simp_all
qed

lemma run_schedule_Cons:
  "run_schedule first_pid second_pid (b # bs) s =
     run_schedule first_pid second_pid bs (step_of first_pid second_pid b s)"
  by simp

theorem negotiation_witness:
  "first_pc (run_schedule 1234 5678 (True # [True, False, False, True, True])
     (start_negotiation \<lparr>server_pid = 0, client_pid = 0\<rparr>)) = Joined 5678 \<and>
   second_pc (run_schedule 1234 5678 (True # [True, False, False, True, True])
     (start_negotiation \<lparr>server_pid = 0, client_pid = 0\<rparr>)) = Joined 1234 \<and>
   mapping (run_schedule 1234 5678 (True # [True, False, False, True, True])
     (start_negotiation \<lparr>server_pid = 0, client_pid = 0\<rparr>)) =
     \<lparr>server_pid = 1234, client_pid = 5678\<rparr> \<and>
   first_pc (run_schedule 1234 5678
     (True # [False, False, True, True, True, True, True, True, True, True, True, True, True,
              True, True])
     (start_negotiation \<lparr>server_pid = 0, client_pid = 0\<rparr>)) = No_client \<and>
   second_pc (run_schedule 1234 5678
     (True # [False, False, True, True, True, True, True, True, True, True, True, True, True,
              True, True])
     (start_negotiation \<lparr>server_pid = 0, client_pid = 0\<rparr>)) = Joined 1234 \<and>
   env_create sample_env = OpenedExisting \<and> env_map sample_env = Succeeded \<and>
   \<not> is_server_of sample_env \<and>
   env_create (sample_env\<lparr>env_create := CreatedFresh\<rparr>) = CreatedFresh \<and>
   env_map (sample_env\<lparr>env_create := CreatedFresh\<rparr>) = Succeeded \<and>
   is_server_of (sample_env\<lparr>env_create := CreatedFresh\<rparr>)"
proof -
  have g: "run_schedule 1234 5678
       (True # [False, False, True, True, True, True, True, True, True, True, True, True, True,
                True, True])
       (start_negotiation \<lparr>server_pid = 0, client_pid = 0\<rparr>) =
     \<lparr>first_pc = No_client, second_pc = Joined 1234,
      mapping = \<lparr>server_pid = 1234, client_pid = 0\<rparr>\<rparr>"
    by (simp add: step_of_def start_negotiation_def entry_pc_def GetLastError_at_156_def
        last_error_after_def last_error_of_create_def ERROR_SUCCESS_def ERROR_ALREADY_EXISTS_def
        Let_def)
  have r: "run_schedule 1234 5678 (True # [True, False, False, True, True])
       (start_negotiation \<lparr>server_pid = 0, client_pid = 0\<rparr>) =
     \<lparr>first_pc = Joined 5678, second_pc = Joined 1234,
      mapping = \<lparr>server_pid = 1234, client_pid = 5678\<rparr>\<rparr>"
    by (simp add: step_of_def start_negotiation_def entry_pc_def GetLastError_at_156_def
        last_error_after_def last_error_of_create_def ERROR_SUCCESS_def ERROR_ALREADY_EXISTS_def
        Let_def)
  show ?thesis
    using negotiation_roles_and_partners
      [where first_pid = 1234 and second_pid = 5678
         and initial = "\<lparr>server_pid = 0, client_pid = 0\<rparr>"
         and sched = "[True, False, False, True, True]" and a = 5678 and b = 1234
         and env = sample_env]
      negotiation_roles_and_partners
      [where env = "sample_env\<lparr>env_create := CreatedFresh\<rparr>"]
      negotiation_roles_and_partners
      [where first_pid = 1234 and second_pid = 5678
         and initial = "\<lparr>server_pid = 0, client_pid = 0\<rparr>"
         and sched = "[False, False, True, True, True, True, True, True, True, True, True, True,
                       True, True, True]" and b = 1234]
    unfolding r g by simp
qed

text \<open>
  The claim as first stated (in every successful negotiation each process learns the
  other's pid) fails when the client reads \<open>server_pid\<close> before the server has stored
  it: both processes end with a partner, and the client's is zero.
\<close>

theorem negotiation_counterexample:
  "first_pc (run_schedule 1234 5678 [False, True, True, False, True, True]
     (start_negotiation \<lparr>server_pid = 0, client_pid = 0\<rparr>)) = Joined 5678 \<and>
   second_pc (run_schedule 1234 5678 [False, True, True, False, True, True]
     (start_negotiation \<lparr>server_pid = 0, client_pid = 0\<rparr>)) = Joined 0 \<and>
   (0::DWORD) \<noteq> 1234"
  by (simp add: step_of_def start_negotiation_def entry_pc_def GetLastError_at_156_def
      last_error_after_def last_error_of_create_def ERROR_SUCCESS_def ERROR_ALREADY_EXISTS_def
      Let_def)

end
